theory Spec2Isabelle
  imports Complex_Main "HOL-Library.Log_Nat"
begin

section \<open>Membership lifecycle and billing ledger\<close>

text \<open>
  A shallow embedding of the route handlers in \<^verbatim>\<open>Backend/routes/students.js\<close> and
  \<^verbatim>\<open>Backend/routes/collections.js\<close>. The database is a record of tables, every table a
  list of rows in insertion order; a handler is a function from the database to a
  response and the database it leaves behind.

  Conventions of the embedding:
  \<^item> A JavaScript number is an IEEE 754 double: \<open>NaN\<close>, one of the two infinities, or
    a finite double given by its exact rational value. Every number that enters a
    handler (a literal of the request, a column read with \<^verbatim>\<open>parseFloat\<close>) and every sum
    and difference is rounded to the nearest double, ties to even, with gradual underflow
    and overflow to infinity. The sign of zero is left out: no handler tells \<open>-0\<close> from
    \<open>0\<close> (\<open>-0 <= 0\<close>, \<open>-0 || 0\<close> and the text sent to the database are those of
    \<open>0\<close>).
  \<^item> A money column holds \<open>NULL\<close> (\<open>None\<close>) or the number that was written to it.
  \<^item> Identifiers are natural numbers, already parsed (\<^verbatim>\<open>parseInt\<close>); the route
    parameter \<^verbatim>\<open>id\<close> is written \<open>sid\<close>. Dates and the clock are points on one
    integer time line.
  \<^item> Columns that the handlers only copy from the request into the row (email,
    registration number, father's name, Aadhaar number, image URLs, remark) are left out.
  \<^item> The schema is not part of the sources. Money columns are taken to be nullable
    and to keep a number as it is written, without rounding it to a scale; a constraint
    of the schema that refuses a statement (a duplicate phone number, say) is a storage
    fault, which the handlers meet in their \<^verbatim>\<open>catch\<close> block.
\<close>

subsection \<open>Values of the request body\<close>

datatype jsval =
    Undefined            \<comment> \<open>the field is absent\<close>
  | Null                 \<comment> \<open>\<open>null\<close>\<close>
  | Number rat           \<comment> \<open>a number, given by the exact value of its literal\<close>
  | Junk                 \<comment> \<open>a truthy value that is not a number and does not parse as one\<close>
  | Bool bool

subsection \<open>JavaScript numbers\<close>

datatype jsnum = NaN | PosInf | NegInf | Fin rat

text \<open>
  The exponent of the leading bit of a positive rational: the greatest \<open>k\<close> with
  \<open>2\<^sup>k \<le> x\<close>, found from the bit lengths of numerator and denominator.
\<close>

definition floor_log2 :: "rat \<Rightarrow> int" where
  "floor_log2 x =
     (case quotient_of x of (p, q) \<Rightarrow>
        let k = bitlen p - bitlen q in if 2 powi k \<le> x then k else k - 1)"

text \<open>Rounding to the nearest integer, a tie going to the even one.\<close>

definition round_half_even :: "rat \<Rightarrow> int" where
  "round_half_even y =
     (let f = \<lfloor>y\<rfloor>; r = y - of_int f
      in if r < 1 / 2 then f else if 1 / 2 < r then f + 1 else if even f then f else f + 1)"

text \<open>
  The exponent of the last place of the double nearest to \<open>x\<close>: 52 below the leading
  bit (a significand of 53 bits), and never below \<open>-1074\<close>, the last place of the
  subnormal doubles.
\<close>

definition ulp_exponent :: "rat \<Rightarrow> int" where
  "ulp_exponent x = max (floor_log2 \<bar>x\<bar> - 52) (- 1074)"

text \<open>
  The double nearest to a rational. The greatest finite double is
  \<open>(2\<^sup>5\<^sup>3 - 1) \<times> 2\<^sup>9\<^sup>7\<^sup>1\<close>; what rounds beyond it is an infinity.
\<close>

definition double_of :: "rat \<Rightarrow> jsnum" where
  "double_of x =
     (if x = 0 then Fin 0
      else
        let e = ulp_exponent x; m = round_half_even (x / 2 powi e)
        in if 971 < e \<or> (e = 971 \<and> 2 ^ 53 \<le> \<bar>m\<bar>) then (if 0 < x then PosInf else NegInf)
           else Fin (of_int m * 2 powi e))"

text \<open>Half of the least subnormal double: the absolute part of the rounding error.\<close>

definition half_denormal :: rat where
  "half_denormal = 2 powi (- 1075)"

text \<open>\<^verbatim>\<open>x + y\<close>\<close>

fun js_add :: "jsnum \<Rightarrow> jsnum \<Rightarrow> jsnum" where
  "js_add NaN _ = NaN"
| "js_add _ NaN = NaN"
| "js_add PosInf NegInf = NaN"
| "js_add NegInf PosInf = NaN"
| "js_add PosInf _ = PosInf"
| "js_add _ PosInf = PosInf"
| "js_add NegInf _ = NegInf"
| "js_add _ NegInf = NegInf"
| "js_add (Fin a) (Fin b) = double_of (a + b)"

text \<open>\<^verbatim>\<open>x - y\<close>\<close>

fun js_sub :: "jsnum \<Rightarrow> jsnum \<Rightarrow> jsnum" where
  "js_sub NaN _ = NaN"
| "js_sub _ NaN = NaN"
| "js_sub PosInf PosInf = NaN"
| "js_sub NegInf NegInf = NaN"
| "js_sub PosInf _ = PosInf"
| "js_sub _ NegInf = PosInf"
| "js_sub NegInf _ = NegInf"
| "js_sub _ PosInf = NegInf"
| "js_sub (Fin a) (Fin b) = double_of (a - b)"

text \<open>\<^verbatim>\<open>x < y\<close>: false as soon as one side is \<open>NaN\<close>.\<close>

fun js_less :: "jsnum \<Rightarrow> jsnum \<Rightarrow> bool" where
  "js_less NaN _ = False"
| "js_less _ NaN = False"
| "js_less PosInf _ = False"
| "js_less _ NegInf = False"
| "js_less NegInf _ = True"
| "js_less _ PosInf = True"
| "js_less (Fin a) (Fin b) = (a < b)"

text \<open>\<^verbatim>\<open>x <= y\<close>\<close>

definition js_le :: "jsnum \<Rightarrow> jsnum \<Rightarrow> bool" where
  "js_le x y = (js_less x y \<or> (x = y \<and> x \<noteq> NaN))"

definition isNaN :: "jsnum \<Rightarrow> bool" where
  "isNaN x = (x = NaN)"

text \<open>\<^verbatim>\<open>x < 0\<close>\<close>

definition js_neg :: "jsnum \<Rightarrow> bool" where
  "js_neg x = js_less x (Fin 0)"

text \<open>\<^verbatim>\<open>parseFloat(v || 0)\<close>: a number that rounds to zero is falsy and is read as \<open>0\<close>.\<close>

fun parseFloat_or0 :: "jsval \<Rightarrow> jsnum" where
  "parseFloat_or0 Undefined = Fin 0"
| "parseFloat_or0 Null = Fin 0"
| "parseFloat_or0 (Number r) = double_of r"
| "parseFloat_or0 Junk = NaN"
| "parseFloat_or0 (Bool b) = (if b then NaN else Fin 0)"

text \<open>\<^verbatim>\<open>v !== undefined ? parseFloat(v) : 0\<close>\<close>

fun parseFloat_defined :: "jsval \<Rightarrow> jsnum" where
  "parseFloat_defined Undefined = Fin 0"
| "parseFloat_defined (Number r) = double_of r"
| "parseFloat_defined _ = NaN"

text \<open>
  \<^verbatim>\<open>parseFloat(row.column) || 0\<close> on a stored money column: \<open>NULL\<close> and \<open>NaN\<close> are read
  as \<open>0\<close>, a number as the double nearest to it.
\<close>

fun num0 :: "jsnum option \<Rightarrow> jsnum" where
  "num0 None = Fin 0"
| "num0 (Some NaN) = Fin 0"
| "num0 (Some (Fin r)) = double_of r"
| "num0 (Some x) = x"

text \<open>Truthiness of an identifier: \<open>null\<close>, \<open>undefined\<close> and \<open>0\<close> are falsy.\<close>

definition truthy :: "nat option \<Rightarrow> bool" where
  "truthy x = (case x of None \<Rightarrow> False | Some n \<Rightarrow> n \<noteq> 0)"

text \<open>\<^verbatim>\<open>x ? parseInt(x, 10) : null\<close>\<close>

definition id_or_null :: "nat option \<Rightarrow> nat option" where
  "id_or_null x = (if truthy x then x else None)"

text \<open>\<^verbatim>\<open>!x\<close> on a text field: absent, \<open>null\<close> and the empty string are falsy.\<close>

definition missing :: "string option \<Rightarrow> bool" where
  "missing x = (case x of None \<Rightarrow> True | Some s \<Rightarrow> s = [])"

text \<open>
  A request value bound to a numeric column by the driver: \<open>undefined\<close> and \<open>null\<close>
  are stored as \<open>NULL\<close>, a number as the double it is, and anything else is refused by
  the storage layer, which the handler sees as a thrown error.
\<close>

datatype error = ValidationError | Conflict | NotFound | Internal

fun to_column :: "jsval \<Rightarrow> error + jsnum option" where
  "to_column Undefined = Inr None"
| "to_column Null = Inr None"
| "to_column (Number r) = Inr (Some (double_of r))"
| "to_column _ = Inl Internal"

subsection \<open>Tables\<close>

datatype status = active | expired

record student =
  s_id :: nat
  s_name :: "string option"
  s_phone :: "string option"
  s_address :: "string option"
  s_branch_id :: "nat option"
  s_membership_start :: "int option"
  s_membership_end :: "int option"
  s_total_fee :: "jsnum option"
  s_amount_paid :: "jsnum option"
  s_due_amount :: "jsnum option"
  s_cash :: "jsnum option"
  s_online :: "jsnum option"
  s_security_money :: "jsnum option"
  s_discount :: "jsnum option"
  s_status :: status
  s_locker_id :: "nat option"
  s_is_active :: bool

record history =
  h_id :: nat
  h_student_id :: nat
  h_name :: "string option"
  h_phone :: "string option"
  h_address :: "string option"
  h_branch_id :: "nat option"
  h_membership_start :: "int option"
  h_membership_end :: "int option"
  h_total_fee :: "jsnum option"
  h_amount_paid :: "jsnum option"
  h_due_amount :: "jsnum option"
  h_cash :: "jsnum option"
  h_online :: "jsnum option"
  h_security_money :: "jsnum option"
  h_discount :: "jsnum option"
  h_status :: status
  h_seat_id :: "nat option"
  h_shift_id :: "nat option"
  h_locker_id :: "nat option"

record seat_assignment =
  a_id :: nat
  a_seat_id :: "nat option"
  a_shift_id :: nat
  a_student_id :: nat

record locker_row =
  l_id :: nat
  l_is_assigned :: bool
  l_student_id :: "nat option"

record db =
  students :: "student list"
  student_membership_history :: "history list"
  seat_assignments :: "seat_assignment list"
  locker :: "locker_row list"
  seats :: "nat list"
  schedules :: "nat list"
  next_student_id :: nat
  next_history_id :: nat
  next_assignment_id :: nat

subsection \<open>Responses and transactions\<close>

datatype response = Success | Failure error

text \<open>
  \<^verbatim>\<open>BEGIN ... COMMIT\<close> with the handler's \<^verbatim>\<open>catch\<close> block. The body works on its own
  copy of the database. An error return rolls back, so the database stays as it was
  (the error returns of the handlers that do not issue \<^verbatim>\<open>ROLLBACK\<close> themselves have
  written nothing). \<open>fault\<close> says that a query of this request throws an unexpected
  storage error: control reaches the \<^verbatim>\<open>catch\<close> block, which rolls back and answers 500.
\<close>

definition transaction :: "bool \<Rightarrow> (db \<Rightarrow> error + db) \<Rightarrow> db \<Rightarrow> response \<times> db" where
  "transaction fault body d =
     (if fault then (Failure Internal, d)
      else (case body d of Inl e \<Rightarrow> (Failure e, d) | Inr d' \<Rightarrow> (Success, d')))"

subsection \<open>Payment processor: \<^verbatim>\<open>PUT /api/collections/:historyId\<close>\<close>

definition pay_student :: "nat \<Rightarrow> student \<Rightarrow> string \<Rightarrow> jsnum \<Rightarrow> student list \<Rightarrow> student list" where
  "pay_student studentId student payment_method payment_amount rows =
     (let new_student_cash = js_add (num0 (s_cash student))
                               (if payment_method = ''cash'' then payment_amount else Fin 0);
          new_student_online = js_add (num0 (s_online student))
                                 (if payment_method = ''online'' then payment_amount else Fin 0);
          new_student_amount_paid = js_add (num0 (s_amount_paid student)) payment_amount;
          new_student_due_amount = js_sub (num0 (s_due_amount student)) payment_amount
      in map (\<lambda>r. if s_id r = studentId
                    then r\<lparr>s_cash := Some new_student_cash, s_online := Some new_student_online,
                           s_amount_paid := Some new_student_amount_paid,
                           s_due_amount := Some new_student_due_amount\<rparr>
                    else r) rows)"

definition pay_history :: "nat \<Rightarrow> history \<Rightarrow> string \<Rightarrow> jsnum \<Rightarrow> history list \<Rightarrow> history list" where
  "pay_history historyId hist payment_method payment_amount rows =
     (let history_due_amount = num0 (h_due_amount hist);
          new_history_cash = js_add (num0 (h_cash hist))
                               (if payment_method = ''cash'' then payment_amount else Fin 0);
          new_history_online = js_add (num0 (h_online hist))
                                 (if payment_method = ''online'' then payment_amount else Fin 0);
          new_history_amount_paid = js_add (num0 (h_amount_paid hist)) payment_amount;
          new_history_due_amount = js_sub history_due_amount payment_amount
      in map (\<lambda>r. if h_id r = historyId
                    then r\<lparr>h_cash := Some new_history_cash, h_online := Some new_history_online,
                           h_amount_paid := Some new_history_amount_paid,
                           h_due_amount := Some new_history_due_amount\<rparr>
                    else r) rows)"

text \<open>
  \<open>payment_amount\<close> is the number the JSON parser made of the literal; the tolerance
  \<open>0.01\<close> is the double nearest to one hundredth.
\<close>

definition apply_payment_body :: "nat \<Rightarrow> jsval \<Rightarrow> string \<Rightarrow> db \<Rightarrow> error + db" where
  "apply_payment_body historyId payment_amount payment_method d =
     (case payment_amount of
        Number literal \<Rightarrow>
          let amount = double_of literal in
          if js_le amount (Fin 0) then Inl ValidationError
          else if payment_method \<notin> set [''cash'', ''online''] then Inl ValidationError
          else (case find (\<lambda>r. h_id r = historyId) (student_membership_history d) of
                  None \<Rightarrow> Inl NotFound
                | Some hist \<Rightarrow>
                    let studentId = h_student_id hist;
                        history_due_amount = num0 (h_due_amount hist)
                    in if js_less (js_add history_due_amount (double_of (1 / 100))) amount
                       then Inl Conflict
                       else (case find (\<lambda>r. s_id r = studentId) (students d) of
                               None \<Rightarrow> Inl NotFound
                             | Some student \<Rightarrow>
                                 Inr (d\<lparr>students := pay_student studentId student payment_method amount (students d),
                                        student_membership_history :=
                                          pay_history historyId hist payment_method amount
                                            (student_membership_history d)\<rparr>)))
      | _ \<Rightarrow> Inl ValidationError)"

definition apply_payment :: "bool \<Rightarrow> nat \<Rightarrow> jsval \<Rightarrow> string \<Rightarrow> db \<Rightarrow> response \<times> db" where
  "apply_payment fault historyId payment_amount payment_method =
     transaction fault (apply_payment_body historyId payment_amount payment_method)"

subsection \<open>Requests of the lifecycle routes\<close>

record student_req =
  name :: "string option"
  phone :: "string option"
  address :: "string option"
  branch_id :: "nat option"
  membership_start :: "int option"
  membership_end :: "int option"
  total_fee :: jsval
  amount_paid :: jsval
  cash :: jsval
  online :: jsval
  security_money :: jsval
  discount :: jsval
  shift_ids :: "nat list"
  seat_id :: "nat option"
  locker_id :: "nat option"

text \<open>\<^verbatim>\<open>new Date(membership_end) < new Date() ? 'expired' : 'active'\<close>\<close>

definition status_at :: "int \<Rightarrow> int option \<Rightarrow> status" where
  "status_at now e = (case e of None \<Rightarrow> active | Some t \<Rightarrow> if t < now then expired else active)"

subsection \<open>Resource registry: seat assignments and lockers\<close>

text \<open>\<^verbatim>\<open>SELECT 1 FROM seat_assignments WHERE seat_id = $1 AND shift_id = $2\<close>\<close>

definition seat_taken :: "nat option \<Rightarrow> nat \<Rightarrow> seat_assignment list \<Rightarrow> bool" where
  "seat_taken seatIdNum shiftId rows =
     list_ex (\<lambda>a. a_seat_id a = seatIdNum \<and> a_shift_id a = shiftId) rows"

text \<open>The same query with \<^verbatim>\<open>AND student_id != $3\<close>.\<close>

definition seat_taken_by_other :: "nat option \<Rightarrow> nat \<Rightarrow> nat \<Rightarrow> seat_assignment list \<Rightarrow> bool" where
  "seat_taken_by_other seatIdNum shiftId sid rows =
     list_ex (\<lambda>a. a_seat_id a = seatIdNum \<and> a_shift_id a = shiftId \<and> a_student_id a \<noteq> sid) rows"

text \<open>\<^verbatim>\<open>INSERT INTO seat_assignments (seat_id, shift_id, student_id)\<close>, once per shift.\<close>

definition insert_assignment :: "nat option \<Rightarrow> nat \<Rightarrow> nat \<Rightarrow> db \<Rightarrow> db" where
  "insert_assignment seatIdNum sid shiftId d =
     d\<lparr>seat_assignments := seat_assignments d @
          [\<lparr>a_id = next_assignment_id d, a_seat_id = seatIdNum, a_shift_id = shiftId, a_student_id = sid\<rparr>],
       next_assignment_id := Suc (next_assignment_id d)\<rparr>"

definition insert_assignments :: "nat option \<Rightarrow> nat list \<Rightarrow> nat \<Rightarrow> db \<Rightarrow> db" where
  "insert_assignments seatIdNum shiftIdsNum sid d = fold (insert_assignment seatIdNum sid) shiftIdsNum d"

text \<open>\<^verbatim>\<open>if (!firstShiftId) firstShiftId = shiftId\<close> inside that loop.\<close>

definition firstShift :: "nat list \<Rightarrow> nat option" where
  "firstShift shiftIdsNum =
     fold (\<lambda>shiftId firstShiftId. if truthy firstShiftId then firstShiftId else Some shiftId) shiftIdsNum None"

text \<open>\<^verbatim>\<open>DELETE FROM seat_assignments WHERE student_id = $1\<close>\<close>

definition delete_assignments :: "nat \<Rightarrow> seat_assignment list \<Rightarrow> seat_assignment list" where
  "delete_assignments sid rows = filter (\<lambda>a. a_student_id a \<noteq> sid) rows"

text \<open>\<^verbatim>\<open>UPDATE locker SET is_assigned = false, student_id = NULL WHERE student_id = $1\<close>\<close>

definition release_lockers_of :: "nat \<Rightarrow> locker_row list \<Rightarrow> locker_row list" where
  "release_lockers_of sid rows =
     map (\<lambda>l. if l_student_id l = Some sid then l\<lparr>l_is_assigned := False, l_student_id := None\<rparr> else l) rows"

text \<open>\<^verbatim>\<open>if (previouslockerId) UPDATE locker SET is_assigned = false, student_id = NULL WHERE id = $1\<close>\<close>

definition release_previous :: "nat option \<Rightarrow> locker_row list \<Rightarrow> locker_row list" where
  "release_previous previouslockerId rows =
     (case previouslockerId of
        None \<Rightarrow> rows
      | Some p \<Rightarrow> if p = 0 then rows
                  else map (\<lambda>l. if l_id l = p then l\<lparr>l_is_assigned := False, l_student_id := None\<rparr> else l) rows)"

text \<open>\<^verbatim>\<open>if (lockerIdNum) UPDATE locker SET is_assigned = true, student_id = $1 WHERE id = $2\<close>\<close>

definition assign_locker :: "nat option \<Rightarrow> nat \<Rightarrow> locker_row list \<Rightarrow> locker_row list" where
  "assign_locker lockerIdNum sid rows =
     (case lockerIdNum of
        None \<Rightarrow> rows
      | Some n \<Rightarrow> map (\<lambda>l. if l_id l = n then l\<lparr>l_is_assigned := True, l_student_id := Some sid\<rparr> else l) rows)"

text \<open>The locker check of Enroll: the locker must exist and must not be assigned.\<close>

definition enroll_locker_check :: "nat option \<Rightarrow> locker_row list \<Rightarrow> error option" where
  "enroll_locker_check lockerIdNum rows =
     (case lockerIdNum of
        None \<Rightarrow> None
      | Some n \<Rightarrow> (case find (\<lambda>l. l_id l = n) rows of
                    None \<Rightarrow> Some ValidationError
                  | Some l \<Rightarrow> if l_is_assigned l then Some Conflict else None))"

text \<open>
  The locker check of Edit and Renew:
  \<^verbatim>\<open>is_assigned && student_id != id\<close> rejects a locker held by somebody else.
\<close>

definition locker_check :: "nat \<Rightarrow> nat option \<Rightarrow> locker_row list \<Rightarrow> error option" where
  "locker_check sid lockerIdNum rows =
     (case lockerIdNum of
        None \<Rightarrow> None
      | Some n \<Rightarrow> (case find (\<lambda>l. l_id l = n) rows of
                    None \<Rightarrow> Some ValidationError
                  | Some l \<Rightarrow> if l_is_assigned l \<and> l_student_id l \<noteq> Some sid then Some Conflict else None))"

subsection \<open>History trail\<close>

text \<open>The column list shared by the history \<^verbatim>\<open>INSERT\<close>s and the history \<^verbatim>\<open>UPDATE\<close>.\<close>

definition history_row ::
  "nat \<Rightarrow> nat \<Rightarrow> student \<Rightarrow> nat option \<Rightarrow> nat option \<Rightarrow> nat option \<Rightarrow> nat option \<Rightarrow> history" where
  "history_row hid sid st seatIdNum firstShiftId branch lockerIdNum =
     \<lparr>h_id = hid, h_student_id = sid, h_name = s_name st, h_phone = s_phone st,
      h_address = s_address st, h_branch_id = branch,
      h_membership_start = s_membership_start st, h_membership_end = s_membership_end st,
      h_total_fee = s_total_fee st, h_amount_paid = s_amount_paid st, h_due_amount = s_due_amount st,
      h_cash = s_cash st, h_online = s_online st, h_security_money = s_security_money st,
      h_discount = s_discount st, h_status = s_status st,
      h_seat_id = seatIdNum, h_shift_id = firstShiftId, h_locker_id = lockerIdNum\<rparr>"

text \<open>\<^verbatim>\<open>INSERT INTO student_membership_history (...)\<close>: the row gets the next serial id.\<close>

definition append_history ::
  "student \<Rightarrow> nat option \<Rightarrow> nat option \<Rightarrow> nat option \<Rightarrow> nat option \<Rightarrow> db \<Rightarrow> db" where
  "append_history st seatIdNum firstShiftId branch lockerIdNum d =
     d\<lparr>student_membership_history := student_membership_history d @
          [history_row (next_history_id d) (s_id st) st seatIdNum firstShiftId branch lockerIdNum],
       next_history_id := Suc (next_history_id d)\<rparr>"

text \<open>\<^verbatim>\<open>SELECT id FROM student_membership_history WHERE student_id = $26 ORDER BY id DESC LIMIT 1\<close>\<close>

fun max_id :: "nat list \<Rightarrow> nat option" where
  "max_id [] = None"
| "max_id (x # xs) = (case max_id xs of None \<Rightarrow> Some x | Some m \<Rightarrow> Some (max x m))"

definition latest_history_id :: "nat \<Rightarrow> history list \<Rightarrow> nat option" where
  "latest_history_id sid rows = max_id (map h_id (filter (\<lambda>r. h_student_id r = sid) rows))"

text \<open>
  \<^verbatim>\<open>UPDATE student_membership_history SET ... WHERE id = (SELECT ...)\<close>: every column
  except \<open>id\<close> and \<open>student_id\<close> is set; with no history row the subquery is \<open>NULL\<close>
  and no row matches.
\<close>

definition overwrite_latest ::
  "nat \<Rightarrow> student \<Rightarrow> nat option \<Rightarrow> nat option \<Rightarrow> nat option \<Rightarrow> history list \<Rightarrow> history list" where
  "overwrite_latest sid updatedStudent seatIdNum firstShiftId lockerIdNum rows =
     (case latest_history_id sid rows of
        None \<Rightarrow> rows
      | Some latest \<Rightarrow>
          map (\<lambda>r. if h_id r = latest
                    then history_row (h_id r) (h_student_id r) updatedStudent seatIdNum firstShiftId
                           (s_branch_id updatedStudent) lockerIdNum
                    else r) rows)"

subsection \<open>Enroll: \<^verbatim>\<open>POST /api/students\<close>\<close>

definition enroll_body :: "int \<Rightarrow> student_req \<Rightarrow> db \<Rightarrow> error + db" where
  "enroll_body now req d =
     (if missing (name req) \<or> \<not> truthy (branch_id req) \<or> membership_start req = None
         \<or> membership_end req = None
      then Inl ValidationError
      else
        let branchIdNum = branch_id req;
            seatIdNum = id_or_null (seat_id req);
            lockerIdNum = id_or_null (locker_id req);
            shiftIdsNum = shift_ids req;
            feeValue = parseFloat_or0 (total_fee req);
            paidValue = parseFloat_or0 (amount_paid req);
            discountValue = parseFloat_or0 (discount req)
        in
        if isNaN feeValue \<or> js_neg feeValue then Inl ValidationError
        else if isNaN paidValue \<or> js_neg paidValue then Inl ValidationError
        else if isNaN discountValue \<or> js_neg discountValue then Inl ValidationError
        else
          let cashValue = parseFloat_defined (cash req);
              onlineValue = parseFloat_defined (online req);
              securityMoneyValue = parseFloat_defined (security_money req)
          in
          if isNaN cashValue \<or> js_neg cashValue then Inl ValidationError
          else if isNaN onlineValue \<or> js_neg onlineValue then Inl ValidationError
          else if isNaN securityMoneyValue \<or> js_neg securityMoneyValue then Inl ValidationError
          else
            let dueAmount = js_sub (js_sub feeValue discountValue) paidValue in
            if seatIdNum \<noteq> None \<and> shiftIdsNum \<noteq> []
               \<and> (case seatIdNum of None \<Rightarrow> False | Some n \<Rightarrow> n \<notin> set (seats d))
            then Inl ValidationError
            else if seatIdNum \<noteq> None \<and> shiftIdsNum \<noteq> []
               \<and> list_ex (\<lambda>shiftId. shiftId \<notin> set (schedules d)) shiftIdsNum
            then Inl ValidationError
            else if seatIdNum \<noteq> None \<and> shiftIdsNum \<noteq> []
               \<and> list_ex (\<lambda>shiftId. seat_taken seatIdNum shiftId (seat_assignments d)) shiftIdsNum
            then Inl Conflict
            else
              (case enroll_locker_check lockerIdNum (locker d) of
                 Some e \<Rightarrow> Inl e
               | None \<Rightarrow>
                   let status = status_at now (membership_end req);
                       student = \<lparr>s_id = next_student_id d, s_name = name req, s_phone = phone req,
                                  s_address = address req, s_branch_id = branchIdNum,
                                  s_membership_start = membership_start req,
                                  s_membership_end = membership_end req,
                                  s_total_fee = Some feeValue, s_amount_paid = Some paidValue,
                                  s_due_amount = Some dueAmount, s_cash = Some cashValue,
                                  s_online = Some onlineValue,
                                  s_security_money = Some securityMoneyValue,
                                  s_discount = Some discountValue,
                                  s_status = status, s_locker_id = lockerIdNum, s_is_active = True\<rparr>;
                       d1 = d\<lparr>students := students d @ [student],
                              next_student_id := Suc (next_student_id d)\<rparr>;
                       d2 = d1\<lparr>locker := assign_locker lockerIdNum (s_id student) (locker d1)\<rparr>;
                       firstShiftId = firstShift shiftIdsNum;
                       d3 = insert_assignments seatIdNum shiftIdsNum (s_id student) d2
                   in Inr (append_history student seatIdNum firstShiftId branchIdNum lockerIdNum d3)))"

definition enroll :: "bool \<Rightarrow> int \<Rightarrow> student_req \<Rightarrow> db \<Rightarrow> response \<times> db" where
  "enroll fault now req = transaction fault (enroll_body now req)"

subsection \<open>Edit: \<^verbatim>\<open>PUT /api/students/:id\<close>\<close>

text \<open>
  The previous locker is read with \<^verbatim>\<open>previouslockerCheck.rows[0].locker_id\<close>: when no
  student has this id, \<^verbatim>\<open>rows[0]\<close> is \<open>undefined\<close> and the property access throws, which
  the \<^verbatim>\<open>catch\<close> block answers with 500 after rolling back. The 404 answer after the
  \<^verbatim>\<open>UPDATE\<close> is therefore never reached. \<open>cash\<close>, \<open>online\<close> and \<open>security_money\<close>
  are bound to the \<^verbatim>\<open>UPDATE\<close> as they came in the request.
\<close>

definition edit_body :: "int \<Rightarrow> nat \<Rightarrow> student_req \<Rightarrow> db \<Rightarrow> error + db" where
  "edit_body now sid req d =
     (if missing (name req) \<or> missing (phone req) \<or> missing (address req)
         \<or> \<not> truthy (branch_id req) \<or> membership_start req = None \<or> membership_end req = None
      then Inl ValidationError
      else
        let seatIdNum = id_or_null (seat_id req);
            lockerIdNum = id_or_null (locker_id req);
            shiftIdsNum = shift_ids req;
            feeValue = parseFloat_or0 (total_fee req);
            paidValue = parseFloat_or0 (amount_paid req);
            discountValue = parseFloat_or0 (discount req);
            dueAmountValue = js_sub (js_sub feeValue discountValue) paidValue;
            status = status_at now (membership_end req)
        in
        (case locker_check sid lockerIdNum (locker d) of
           Some e \<Rightarrow> Inl e
         | None \<Rightarrow>
             (case find (\<lambda>r. s_id r = sid) (students d) of
                None \<Rightarrow> Inl Internal
              | Some previous \<Rightarrow>
                  let d1 = d\<lparr>locker := release_previous (s_locker_id previous) (locker d)\<rparr> in
                  (case to_column (cash req) of Inl e \<Rightarrow> Inl e | Inr cashCol \<Rightarrow>
                  (case to_column (online req) of Inl e \<Rightarrow> Inl e | Inr onlineCol \<Rightarrow>
                  (case to_column (security_money req) of Inl e \<Rightarrow> Inl e | Inr securityCol \<Rightarrow>
                     let set_row = (\<lambda>r. r\<lparr>s_name := name req, s_phone := phone req,
                                           s_address := address req, s_branch_id := branch_id req,
                                           s_membership_start := membership_start req,
                                           s_membership_end := membership_end req,
                                           s_total_fee := Some feeValue,
                                           s_amount_paid := Some paidValue,
                                           s_due_amount := Some dueAmountValue, s_cash := cashCol,
                                           s_online := onlineCol, s_security_money := securityCol,
                                           s_status := status, s_locker_id := lockerIdNum,
                                           s_discount := Some discountValue\<rparr>);
                         d2 = d1\<lparr>students := map (\<lambda>r. if s_id r = sid then set_row r else r) (students d1)\<rparr>;
                         updatedStudent = set_row previous;
                         d3 = d2\<lparr>locker := assign_locker lockerIdNum sid (locker d2)\<rparr>;
                         firstShiftId = firstShift shiftIdsNum;
                         d4 = d3\<lparr>seat_assignments := delete_assignments sid (seat_assignments d3)\<rparr>;
                         d5 = insert_assignments seatIdNum shiftIdsNum sid d4
                     in Inr (d5\<lparr>student_membership_history :=
                                  overwrite_latest sid updatedStudent seatIdNum firstShiftId lockerIdNum
                                    (student_membership_history d5)\<rparr>)))))))"

definition edit :: "bool \<Rightarrow> int \<Rightarrow> nat \<Rightarrow> student_req \<Rightarrow> db \<Rightarrow> response \<times> db" where
  "edit fault now sid req = transaction fault (edit_body now sid req)"

subsection \<open>Renew: \<^verbatim>\<open>POST /api/students/:id/renew\<close>\<close>

definition renew_body :: "int \<Rightarrow> nat \<Rightarrow> student_req \<Rightarrow> db \<Rightarrow> error + db" where
  "renew_body now sid req d =
     (if membership_start req = None \<or> membership_end req = None \<or> missing (name req)
         \<or> missing (phone req) \<or> \<not> truthy (branch_id req)
      then Inl ValidationError
      else
        let branchIdNum = branch_id req;
            seatIdNum = id_or_null (seat_id req);
            lockerIdNum = id_or_null (locker_id req);
            shiftIdsNum = shift_ids req;
            feeValue = parseFloat_or0 (total_fee req);
            cashValue = parseFloat_or0 (cash req);
            onlineValue = parseFloat_or0 (online req);
            securityMoneyValue = parseFloat_or0 (security_money req);
            discountValue = parseFloat_or0 (discount req);
            amount_paid = js_add cashValue onlineValue;
            due_amount = js_sub (js_sub feeValue discountValue) amount_paid;
            status = status_at now (membership_end req)
        in
        if seatIdNum \<noteq> None \<and> shiftIdsNum \<noteq> []
           \<and> list_ex (\<lambda>shiftId. seat_taken_by_other seatIdNum shiftId sid (seat_assignments d)) shiftIdsNum
        then Inl Conflict
        else
          (case locker_check sid lockerIdNum (locker d) of
             Some e \<Rightarrow> Inl e
           | None \<Rightarrow>
               let d1 = d\<lparr>locker := release_lockers_of sid (locker d)\<rparr>;
                   set_row = (\<lambda>r. r\<lparr>s_name := name req, s_address := address req,
                                     s_membership_start := membership_start req,
                                     s_membership_end := membership_end req, s_status := status,
                                     s_phone := phone req, s_branch_id := branchIdNum,
                                     s_total_fee := Some feeValue,
                                     s_amount_paid := Some amount_paid,
                                     s_due_amount := Some due_amount, s_cash := Some cashValue,
                                     s_online := Some onlineValue,
                                     s_security_money := Some securityMoneyValue,
                                     s_locker_id := lockerIdNum,
                                     s_discount := Some discountValue\<rparr>);
                   d2 = d1\<lparr>students := map (\<lambda>r. if s_id r = sid then set_row r else r) (students d1)\<rparr>
               in
               (case find (\<lambda>r. s_id r = sid) (students d2) of
                  None \<Rightarrow> Inl NotFound
                | Some updated \<Rightarrow>
                    let d3 = d2\<lparr>locker := assign_locker lockerIdNum sid (locker d2)\<rparr>;
                        firstShiftId = firstShift shiftIdsNum;
                        d4 = d3\<lparr>seat_assignments := delete_assignments sid (seat_assignments d3)\<rparr>;
                        d5 = insert_assignments seatIdNum shiftIdsNum sid d4
                    in Inr (append_history updated seatIdNum firstShiftId branchIdNum lockerIdNum d5))))"

definition renew :: "bool \<Rightarrow> int \<Rightarrow> nat \<Rightarrow> student_req \<Rightarrow> db \<Rightarrow> response \<times> db" where
  "renew fault now sid req = transaction fault (renew_body now sid req)"

subsection \<open>Deactivate and reactivate: \<^verbatim>\<open>PUT /api/students/:id/status\<close>\<close>

definition set_status_body :: "nat \<Rightarrow> jsval \<Rightarrow> db \<Rightarrow> error + db" where
  "set_status_body sid is_active d =
     (case is_active of
        Bool b \<Rightarrow>
          let d1 = d\<lparr>students := map (\<lambda>r. if s_id r = sid then r\<lparr>s_is_active := b\<rparr> else r) (students d)\<rparr> in
          if filter (\<lambda>r. s_id r = sid) (students d) = [] then Inl NotFound
          else if b = False
          then
            let d2 = d1\<lparr>seat_assignments := delete_assignments sid (seat_assignments d1)\<rparr>;
                d3 = d2\<lparr>students := map (\<lambda>r. if s_id r = sid then r\<lparr>s_locker_id := None\<rparr> else r) (students d2)\<rparr>
            in Inr (d3\<lparr>locker := release_lockers_of sid (locker d3)\<rparr>)
          else Inr d1
      | _ \<Rightarrow> Inl ValidationError)"

definition set_status :: "bool \<Rightarrow> nat \<Rightarrow> jsval \<Rightarrow> db \<Rightarrow> response \<times> db" where
  "set_status fault sid is_active = transaction fault (set_status_body sid is_active)"

subsection \<open>Delete: \<^verbatim>\<open>DELETE /api/students/:id\<close>\<close>

text \<open>
  This handler issues its four statements through \<^verbatim>\<open>pool.query\<close>, outside any
  \<^verbatim>\<open>BEGIN ... COMMIT\<close>: each statement is committed when it returns. \<open>fail_at\<close> is the
  index (from 0) of the statement at which the storage layer throws, if any; the
  \<^verbatim>\<open>catch\<close> block answers 500 and undoes nothing.
\<close>

definition delete_student :: "nat option \<Rightarrow> nat \<Rightarrow> db \<Rightarrow> response \<times> db" where
  "delete_student fail_at sid d =
     (if fail_at = Some 0 then (Failure Internal, d)
      else
        let d1 = d\<lparr>seat_assignments := delete_assignments sid (seat_assignments d)\<rparr> in
        if fail_at = Some 1 then (Failure Internal, d1)
        else
          let d2 = d1\<lparr>locker := release_lockers_of sid (locker d1)\<rparr> in
          if fail_at = Some 2 then (Failure Internal, d2)
          else
            let d3 = d2\<lparr>student_membership_history :=
                          filter (\<lambda>r. h_student_id r \<noteq> sid) (student_membership_history d2)\<rparr> in
            if fail_at = Some 3 then (Failure Internal, d3)
            else
              let del = filter (\<lambda>r. s_id r = sid) (students d3);
                  d4 = d3\<lparr>students := filter (\<lambda>r. s_id r \<noteq> sid) (students d3)\<rparr>
              in if del = [] then (Failure NotFound, d4) else (Success, d4))"

section \<open>Observations used in the statements\<close>

text \<open>The number of history rows of a member.\<close>

definition history_count :: "nat \<Rightarrow> db \<Rightarrow> nat" where
  "history_count m d = length (filter (\<lambda>r. h_student_id r = m) (student_membership_history d))"

text \<open>
  The locker invariant as the specification states it: a locker's flag is set if and
  only if exactly one member row refers to the locker, and then the locker's
  \<open>student_id\<close> is that member.
\<close>

definition referencing :: "nat \<Rightarrow> student list \<Rightarrow> student list" where
  "referencing lockerId rows = filter (\<lambda>s. s_locker_id s = Some lockerId) rows"

definition locker_flag_inv :: "db \<Rightarrow> bool" where
  "locker_flag_inv d =
     (\<forall>l \<in> set (locker d).
        (l_is_assigned l \<longleftrightarrow> length (referencing (l_id l) (students d)) = 1)
      \<and> (l_is_assigned l \<longrightarrow>
           (\<forall>s \<in> set (referencing (l_id l) (students d)). l_student_id l = Some (s_id s))))"

text \<open>
  The inductive form of the invariant: student ids are distinct and below the serial
  counter, no locker has id 0, every member that refers to a locker is the one the
  locker points back to (so no two members share a locker), and an assigned locker is
  referred to by some member.
\<close>

definition locker_inv :: "db \<Rightarrow> bool" where
  "locker_inv d =
     (distinct (map s_id (students d))
      \<and> (\<forall>s \<in> set (students d). s_id s < next_student_id d)
      \<and> (\<forall>l \<in> set (locker d). l_id l \<noteq> 0)
      \<and> (\<forall>l \<in> set (locker d). \<forall>s \<in> set (students d).
            s_locker_id s = Some (l_id l) \<longrightarrow> l_is_assigned l \<and> l_student_id l = Some (s_id s))
      \<and> (\<forall>l \<in> set (locker d). l_is_assigned l \<longrightarrow>
            (\<exists>s \<in> set (students d). s_locker_id s = Some (l_id l))))"

text \<open>What Enroll refuses in an amount: \<^verbatim>\<open>isNaN(x) || x < 0\<close>.\<close>

definition invalid_amount :: "jsnum \<Rightarrow> bool" where
  "invalid_amount x = (isNaN x \<or> js_neg x)"

text \<open>
  A bound on the magnitude of a due amount under which no sum or difference of the
  payment handler overflows.
\<close>

definition overflow_margin :: rat where
  "overflow_margin = 2 powi 1000"

section \<open>Example states\<close>

text \<open>
  A member enrolled with fee 1000, no discount, 400 paid in cash: 600 is due, on the
  head and on the one history row.
\<close>

definition student_example :: student where
  "student_example =
     \<lparr>s_id = 1, s_name = Some ''Asha'', s_phone = Some ''9000000001'', s_address = Some ''Patna'',
      s_branch_id = Some 1, s_membership_start = Some 100, s_membership_end = Some 130,
      s_total_fee = Some (Fin 1000), s_amount_paid = Some (Fin 400),
      s_due_amount = Some (Fin 600), s_cash = Some (Fin 400), s_online = Some (Fin 0),
      s_security_money = Some (Fin 0), s_discount = Some (Fin 0),
      s_status = active, s_locker_id = None, s_is_active = True\<rparr>"

definition db_example :: db where
  "db_example =
     \<lparr>students = [student_example],
      student_membership_history = [history_row 1 1 student_example None None (Some 1) None],
      seat_assignments = [], locker = [], seats = [1], schedules = [1],
      next_student_id = 2, next_history_id = 2, next_assignment_id = 1\<rparr>"

text \<open>The same member, with a head that already shows nothing due.\<close>

definition student_overpaid :: student where
  "student_overpaid =
     student_example\<lparr>s_due_amount := Some (Fin 0), s_amount_paid := Some (Fin 1000),
                     s_cash := Some (Fin 1000)\<rparr>"

definition db_head_settled :: db where
  "db_head_settled = db_example\<lparr>students := [student_overpaid]\<rparr>"

text \<open>A request for a second period: fee 1200, 500 paid in cash.\<close>

definition req_second_period :: student_req where
  "req_second_period =
     \<lparr>name = Some ''Asha'', phone = Some ''9000000001'', address = Some ''Patna'',
      branch_id = Some 1, membership_start = Some 130, membership_end = Some 160,
      total_fee = Number 1200, amount_paid = Number 500, cash = Number 500, online = Number 0,
      security_money = Number 0, discount = Number 0, shift_ids = [], seat_id = None,
      locker_id = None\<rparr>"

text \<open>An empty database with one seat and one shift, and an enrolment that names its
  payment by channel only.\<close>

definition db_empty :: db where
  "db_empty =
     \<lparr>students = [], student_membership_history = [], seat_assignments = [], locker = [],
      seats = [1], schedules = [1],
      next_student_id = 1, next_history_id = 1, next_assignment_id = 1\<rparr>"

definition req_cash_only :: student_req where
  "req_cash_only =
     \<lparr>name = Some ''Asha'', phone = Some ''9000000001'', address = Some ''Patna'',
      branch_id = Some 1, membership_start = Some 100, membership_end = Some 130,
      total_fee = Number 1000, amount_paid = Undefined, cash = Number 400, online = Number 0,
      security_money = Number 0, discount = Number 0, shift_ids = [], seat_id = None,
      locker_id = None\<rparr>"

text \<open>
  Two members; the first holds seat 1 in shift 1. The request asks for that seat and
  shift.
\<close>

definition student_second :: student where
  "student_second = student_example\<lparr>s_id := 2, s_name := Some ''Bela'', s_phone := Some ''9000000002''\<rparr>"

definition db_seat_held :: db where
  "db_seat_held =
     \<lparr>students = [student_example, student_second],
      student_membership_history =
        [history_row 1 1 student_example (Some 1) (Some 1) (Some 1) None,
         history_row 2 2 student_second None None (Some 1) None],
      seat_assignments = [\<lparr>a_id = 1, a_seat_id = Some 1, a_shift_id = 1, a_student_id = 1\<rparr>],
      locker = [], seats = [1], schedules = [1],
      next_student_id = 3, next_history_id = 3, next_assignment_id = 2\<rparr>"

definition req_same_seat :: student_req where
  "req_same_seat =
     \<lparr>name = Some ''Bela'', phone = Some ''9000000002'', address = Some ''Patna'',
      branch_id = Some 1, membership_start = Some 100, membership_end = Some 130,
      total_fee = Number 1000, amount_paid = Number 400, cash = Number 400, online = Number 0,
      security_money = Number 0, discount = Number 0, shift_ids = [1], seat_id = Some 1,
      locker_id = None\<rparr>"

text \<open>The member of the first example, holding locker 1.\<close>

definition db_locker_held :: db where
  "db_locker_held =
     \<lparr>students = [student_example\<lparr>s_locker_id := Some 1\<rparr>],
      student_membership_history =
        [history_row 1 1 (student_example\<lparr>s_locker_id := Some 1\<rparr>) None None (Some 1) (Some 1)],
      seat_assignments = [],
      locker = [\<lparr>l_id = 1, l_is_assigned = True, l_student_id = Some 1\<rparr>],
      seats = [1], schedules = [1],
      next_student_id = 2, next_history_id = 2, next_assignment_id = 1\<rparr>"

text \<open>
  A member enrolled with a fee given in hundredths, part of it paid in cash, and the
  database after that enrolment.
\<close>

definition req_hundredths :: "int \<Rightarrow> int \<Rightarrow> student_req" where
  "req_hundredths fee paid =
     req_cash_only\<lparr>total_fee := Number (of_int fee / 100), amount_paid := Number (of_int paid / 100),
                   cash := Number (of_int paid / 100)\<rparr>"

definition db_hundredths :: "int \<Rightarrow> int \<Rightarrow> db" where
  "db_hundredths fee paid = snd (enroll False 110 (req_hundredths fee paid) db_empty)"

text \<open>
  Two members with two periods each: from the state with two members, the first member
  renews, then the second. The history rows 1 and 3 belong to the first member, the
  rows 2 and 4 to the second.
\<close>

definition req_second_period_other :: student_req where
  "req_second_period_other =
     req_second_period\<lparr>name := Some ''Bela'', phone := Some ''9000000002''\<rparr>"

definition db_two_periods :: db where
  "db_two_periods =
     snd (renew False 120 2 req_second_period_other
            (snd (renew False 120 1 req_second_period db_seat_held)))"

text \<open>An edit of the first member: fee 1500, 500 paid, seat 1 in shift 1.\<close>

definition req_edit_period :: student_req where
  "req_edit_period =
     req_second_period\<lparr>total_fee := Number 1500, seat_id := Some 1, shift_ids := [1]\<rparr>"

section \<open>Properties\<close>

subsection \<open>Rounding to the nearest double\<close>

text \<open>
  \<open>floor_log2\<close> finds the binade of a positive rational, rounding to the nearest
  integer is within one half, and so \<open>double_of\<close> is within half a unit in the last
  place: a relative error of at most \<open>2\<^sup>-\<^sup>5\<^sup>3\<close>, or half the least subnormal.
  It never gives \<open>NaN\<close>, keeps signs, is finite below \<open>2\<^sup>1\<^sup>0\<^sup>2\<^sup>3\<close> and overflows from
  \<open>2\<^sup>1\<^sup>0\<^sup>2\<^sup>4\<close> on. It is exact on every \<open>m \<times> 2\<^sup>e\<close> with \<open>\<bar>m\<bar> < 2\<^sup>5\<^sup>3\<close> and
  \<open>-1074 \<le> e \<le> 971\<close>, so on the integers below \<open>2\<^sup>5\<^sup>3\<close> and on its own results: a
  double written to a column is read back as it was.
\<close>

lemma floor_log2_bounds:
  assumes "0 < x"
  shows "2 powi (floor_log2 x) \<le> x" and "x < 2 powi (floor_log2 x + 1)"
proof -
  obtain p q where pq: "quotient_of x = (p, q)" by (cases "quotient_of x")
  then have q: "0 < q" by (rule quotient_of_denom_pos)
  from pq have x: "x = of_int p / of_int q" by (rule quotient_of_div)
  with assms q have p: "0 < p" by (simp add: zero_less_divide_iff)
  let ?k = "bitlen p - bitlen q"
  from bitlen_bounds [OF p] have bp: "2 ^ nat (bitlen p - 1) \<le> p" "p < 2 ^ nat (bitlen p)" by simp_all
  from bitlen_bounds [OF q] have bq: "2 ^ nat (bitlen q - 1) \<le> q" "q < 2 ^ nat (bitlen q)" by simp_all
  have p1: "1 \<le> bitlen p" using p by (simp add: bitlen_alt_def)
  have q1: "1 \<le> bitlen q" using q by (simp add: bitlen_alt_def)
  have rp: "(2::rat) powi (bitlen p - 1) \<le> of_int p" "of_int p < (2::rat) powi (bitlen p)"
  proof -
    have "(of_int (2 ^ nat (bitlen p - 1)) :: rat) \<le> of_int p" using bp(1) by (simp only: of_int_le_iff)
    then show "(2::rat) powi (bitlen p - 1) \<le> of_int p" using p1 by (simp add: power_int_def)
    have "(of_int p :: rat) < of_int (2 ^ nat (bitlen p))" using bp(2) by (simp only: of_int_less_iff)
    then show "of_int p < (2::rat) powi (bitlen p)" using p1 by (simp add: power_int_def)
  qed
  have rq: "(2::rat) powi (bitlen q - 1) \<le> of_int q" "of_int q < (2::rat) powi (bitlen q)"
  proof -
    have "(of_int (2 ^ nat (bitlen q - 1)) :: rat) \<le> of_int q" using bq(1) by (simp only: of_int_le_iff)
    then show "(2::rat) powi (bitlen q - 1) \<le> of_int q" using q1 by (simp add: power_int_def)
    have "(of_int q :: rat) < of_int (2 ^ nat (bitlen q))" using bq(2) by (simp only: of_int_less_iff)
    then show "of_int q < (2::rat) powi (bitlen q)" using q1 by (simp add: power_int_def)
  qed
  let ?a = "(2::rat) powi (bitlen p - 1)" and ?b = "(2::rat) powi (bitlen q - 1)"
  have ab: "0 < ?a" "0 < ?b" by simp_all
  have dbl: "(2::rat) powi (bitlen p) = 2 * ?a" "(2::rat) powi (bitlen q) = 2 * ?b"
    by (simp_all add: power_int_diff)
  have k: "(2::rat) powi ?k = ?a / ?b"
    by (simp add: power_int_diff)
  have k1: "(2::rat) powi (?k + 1) = 2 * ?a / ?b" "(2::rat) powi (?k - 1) = ?a / (2 * ?b)"
    using k by (simp_all add: power_int_add power_int_diff)
  have P: "(0::rat) < of_int p" and Q: "(0::rat) < of_int q" using p q by simp_all
  have upper: "x < 2 powi (?k + 1)"
    unfolding x k1 using rp(2) rq(1) P ab dbl p q by (intro frac_less) simp_all
  have lower: "2 powi (?k - 1) < x"
    unfolding x k1 using rp(1) rq(2) P ab dbl p q by (intro frac_less2) simp_all
  have fl: "floor_log2 x = (if 2 powi ?k \<le> x then ?k else ?k - 1)"
    by (simp add: floor_log2_def pq Let_def)
  show "2 powi (floor_log2 x) \<le> x"
    using lower by (simp add: fl)
  show "x < 2 powi (floor_log2 x + 1)"
    using upper by (simp add: fl not_le)
qed

lemma round_half_even_error: "\<bar>of_int (round_half_even y) - y\<bar> \<le> 1 / 2"
proof -
  define f where "f = \<lfloor>y\<rfloor>"
  have b: "of_int f \<le> y" "y < of_int f + 1" unfolding f_def by linarith+
  consider "y - of_int f < 1 / 2" | "1 / 2 < y - of_int f" | "y - of_int f = 1 / 2" by linarith
  then show ?thesis
  proof cases
    case 1
    then have "round_half_even y = f" by (simp add: round_half_even_def f_def)
    with 1 b show ?thesis by simp
  next
    case 2
    then have "round_half_even y = f + 1" by (simp add: round_half_even_def f_def)
    with 2 b show ?thesis by simp
  next
    case 3
    then have "round_half_even y = f \<or> round_half_even y = f + 1"
      by (simp add: round_half_even_def f_def Let_def)
    with 3 show ?thesis by auto
  qed
qed

lemma round_half_even_of_int [simp]: "round_half_even (of_int n) = n"
  by (simp add: round_half_even_def)

lemma round_half_even_nonneg: "0 \<le> y \<Longrightarrow> 0 \<le> round_half_even y"
  unfolding round_half_even_def Let_def by (auto intro: add_nonneg_nonneg)

lemma round_half_even_nonpos: "y \<le> 0 \<Longrightarrow> round_half_even y \<le> 0"
proof -
  assume y: "y \<le> 0"
  define f where "f = \<lfloor>y\<rfloor>"
  have b: "of_int f \<le> y" "y < of_int f + 1" unfolding f_def by linarith+
  from b(1) y have f0: "f \<le> 0" by linarith
  show ?thesis
  proof (cases "y = of_int f")
    case True
    then have "round_half_even y = f" by (simp add: round_half_even_def f_def)
    with f0 show ?thesis by simp
  next
    case False
    with b(1) have "of_int f < y" by simp
    with y have "(of_int f :: rat) < 0" by simp
    then have "f < 0" by simp
    then have "f + 1 \<le> 0" by simp
    moreover have "round_half_even y = f \<or> round_half_even y = f + 1"
      by (simp add: round_half_even_def f_def Let_def)
    ultimately show ?thesis using f0 by auto
  qed
qed

lemma ulp_exponent_bound:
  assumes "x \<noteq> 0"
  shows "2 powi (ulp_exponent x) \<le> \<bar>x\<bar> / 2 ^ 52 \<or> ulp_exponent x = - 1074"
proof (cases "floor_log2 \<bar>x\<bar> - 52 \<le> - 1074")
  case True
  then show ?thesis by (simp add: ulp_exponent_def max_def)
next
  case False
  then have e: "ulp_exponent x = floor_log2 \<bar>x\<bar> - 52" by (simp add: ulp_exponent_def max_def)
  from assms have "0 < \<bar>x\<bar>" by simp
  from floor_log2_bounds(1) [OF this] have "2 powi (floor_log2 \<bar>x\<bar>) \<le> \<bar>x\<bar>" .
  then have "2 powi (floor_log2 \<bar>x\<bar>) / 2 ^ 52 \<le> \<bar>x\<bar> / 2 ^ 52"
    by (simp add: divide_right_mono)
  moreover have "(2::rat) powi (floor_log2 \<bar>x\<bar> - 52) = 2 powi (floor_log2 \<bar>x\<bar>) / 2 ^ 52"
    by (simp add: power_int_diff)
  ultimately show ?thesis by (simp add: e)
qed

lemma double_of_cases:
  obtains (zero) "x = 0" "double_of x = Fin 0"
  | (over) "x \<noteq> 0" "double_of x = (if 0 < x then PosInf else NegInf)"
      "971 < ulp_exponent x \<or> ulp_exponent x = 971"
  | (fin) "x \<noteq> 0"
      "double_of x = Fin (of_int (round_half_even (x / 2 powi (ulp_exponent x))) * 2 powi (ulp_exponent x))"
proof (cases "x = 0")
  case True
  then have "double_of x = Fin 0" by (simp add: double_of_def)
  with True show ?thesis by (rule zero)
next
  case False
  let ?e = "ulp_exponent x"
  let ?m = "round_half_even (x / 2 powi ?e)"
  show ?thesis
  proof (cases "971 < ?e \<or> (?e = 971 \<and> 2 ^ 53 \<le> \<bar>?m\<bar>)")
    case True
    with False have "double_of x = (if 0 < x then PosInf else NegInf)"
      by (simp add: double_of_def Let_def)
    moreover from True have "971 < ?e \<or> ?e = 971" by blast
    ultimately show ?thesis using False by (intro over)
  next
    case no: False
    with False have "double_of x = Fin (of_int ?m * 2 powi ?e)"
      by (simp add: double_of_def Let_def)
    with False show ?thesis by (intro fin)
  qed
qed

lemma half_denormal_pos: "0 < half_denormal"
  by (simp add: half_denormal_def)

lemma half_denormal_small: "half_denormal \<le> 1 / 2 ^ 60"
proof -
  have "(2::rat) powi (- 1075) \<le> 2 powi (- 60)"
    by (rule power_int_increasing) simp_all
  also have "(2::rat) powi (- 60) = 1 / 2 ^ 60"
    by (simp add: power_int_def field_simps)
  finally show ?thesis by (simp only: half_denormal_def)
qed

lemma half_denormal_eq: "(2::rat) powi (- 1074) / 2 = half_denormal"
proof -
  have "(2::rat) powi (- 1074 - 1) = 2 powi (- 1074) / 2 powi 1"
    by (rule power_int_diff) simp
  then show ?thesis by (simp add: half_denormal_def)
qed

lemma double_of_not_NaN [simp]: "double_of x \<noteq> NaN"
  by (cases x rule: double_of_cases) (auto split: if_splits)

lemma double_of_error:
  assumes "double_of x = Fin v"
  shows "\<bar>v - x\<bar> \<le> \<bar>x\<bar> / 2 ^ 53 + half_denormal"
proof (cases x rule: double_of_cases)
  case zero
  with assms half_denormal_pos show ?thesis by simp
next
  case over
  with assms show ?thesis by (simp split: if_splits)
next
  case fin
  let ?e = "ulp_exponent x"
  let ?u = "(2::rat) powi ?e"
  let ?m = "round_half_even (x / ?u)"
  have u: "0 < ?u" by simp
  from fin assms have v: "v = of_int ?m * ?u" by simp
  have "v - x = (of_int ?m - x / ?u) * ?u" using u by (simp add: v field_simps)
  then have "\<bar>v - x\<bar> = \<bar>of_int ?m - x / ?u\<bar> * ?u" using u by (simp add: abs_mult)
  also have "\<dots> \<le> 1 / 2 * ?u"
    using round_half_even_error [of "x / ?u"] u by (intro mult_right_mono) simp_all
  finally have half: "\<bar>v - x\<bar> \<le> ?u / 2" by simp
  from ulp_exponent_bound [OF fin(1)] show ?thesis
  proof
    assume "?u \<le> \<bar>x\<bar> / 2 ^ 52"
    then have "?u / 2 \<le> \<bar>x\<bar> / 2 ^ 53" by simp
    with half have "\<bar>v - x\<bar> \<le> \<bar>x\<bar> / 2 ^ 53" by simp
    also have "\<dots> \<le> \<bar>x\<bar> / 2 ^ 53 + half_denormal"
      using half_denormal_pos by simp
    finally show ?thesis .
  next
    assume "?e = - 1074"
    then have "?u / 2 = half_denormal" by (simp only: half_denormal_eq)
    with half have "\<bar>v - x\<bar> \<le> half_denormal" by simp
    also have "\<dots> \<le> \<bar>x\<bar> / 2 ^ 53 + half_denormal" by simp
    finally show ?thesis .
  qed
qed

lemma double_of_nonneg:
  assumes "0 \<le> x" "double_of x = Fin v"
  shows "0 \<le> v"
proof (cases x rule: double_of_cases)
  case zero
  with assms show ?thesis by simp
next
  case over
  with assms show ?thesis by (simp split: if_splits)
next
  case fin
  have "0 \<le> x / 2 powi (ulp_exponent x)" using assms(1) by simp
  from round_half_even_nonneg [OF this] fin assms(2) show ?thesis by simp
qed

lemma double_of_nonpos:
  assumes "x \<le> 0" "double_of x = Fin v"
  shows "v \<le> 0"
proof (cases x rule: double_of_cases)
  case zero
  with assms show ?thesis by simp
next
  case over
  with assms show ?thesis by (simp split: if_splits)
next
  case fin
  have "x / 2 powi (ulp_exponent x) \<le> 0" using assms(1) by (simp add: divide_le_0_iff)
  from round_half_even_nonpos [OF this] fin assms(2) show ?thesis
    by (simp add: mult_le_0_iff)
qed

lemma double_of_pos_not_NegInf: "0 \<le> x \<Longrightarrow> double_of x \<noteq> NegInf"
  by (cases x rule: double_of_cases) (auto split: if_splits)

lemma double_of_neg_not_PosInf: "x \<le> 0 \<Longrightarrow> double_of x \<noteq> PosInf"
  by (cases x rule: double_of_cases) (auto split: if_splits)

lemma double_of_finite:
  assumes "\<bar>x\<bar> < 2 powi 1023"
  shows "\<exists>v. double_of x = Fin v"
proof (cases x rule: double_of_cases)
  case zero
  then show ?thesis by simp
next
  case fin
  then show ?thesis by simp
next
  case over
  then have pos: "0 < \<bar>x\<bar>" by simp
  from floor_log2_bounds(1) [OF pos] assms
  have "(2::rat) powi (floor_log2 \<bar>x\<bar>) < 2 powi 1023" by (rule le_less_trans)
  then have "floor_log2 \<bar>x\<bar> < 1023"
    by (rule power_int_le_imp_less_exp [rotated]) simp_all
  then have "ulp_exponent x < 971" by (simp add: ulp_exponent_def)
  with over(3) show ?thesis by simp
qed

lemma power_int_less_cancel:
  assumes "(2::rat) powi a < 2 powi b"
  shows "a < b"
proof (rule ccontr)
  assume "\<not> a < b"
  then have "b \<le> a" by simp
  then have "(2::rat) powi b \<le> 2 powi a" by (rule power_int_increasing) simp
  with assms show False by simp
qed

lemma double_of_dyadic:
  assumes M: "\<bar>M\<bar> < 2 ^ 53" and E: "- 1074 \<le> E" "E \<le> 971"
  shows "double_of (of_int M * 2 powi E) = Fin (of_int M * 2 powi E)"
proof (cases "M = 0")
  case True
  then show ?thesis by (simp add: double_of_def)
next
  case False
  let ?v = "of_int M * (2::rat) powi E"
  define e where "e = ulp_exponent ?v"
  have u: "(0::rat) < 2 powi E" by simp
  have v0: "?v \<noteq> 0" using False by simp
  then have pos: "0 < \<bar>?v\<bar>" by simp
  have av: "\<bar>?v\<bar> = of_int \<bar>M\<bar> * 2 powi E" by (simp add: abs_mult)
  have "(of_int \<bar>M\<bar> :: rat) < of_int (2 ^ 53)" using M by (simp only: of_int_less_iff)
  then have "(of_int \<bar>M\<bar> :: rat) < 2 powi 53" by simp
  then have "\<bar>?v\<bar> < 2 powi 53 * 2 powi E" unfolding av using u by (rule mult_strict_right_mono)
  also have "(2::rat) powi 53 * 2 powi E = 2 powi (53 + E)" by (rule power_int_add [symmetric]) simp
  finally have "\<bar>?v\<bar> < 2 powi (53 + E)" .
  with floor_log2_bounds(1) [OF pos] have "2 powi (floor_log2 \<bar>?v\<bar>) < (2::rat) powi (53 + E)"
    by (rule le_less_trans)
  then have "floor_log2 \<bar>?v\<bar> < 53 + E" by (rule power_int_less_cancel)
  with E have e: "e \<le> E" "- 1074 \<le> e" by (simp_all add: e_def ulp_exponent_def)
  define k where "k = nat (E - e)"
  have "E = e + int k" using e by (simp add: k_def)
  then have "(2::rat) powi E = 2 powi (e + int k)" by simp
  also have "\<dots> = 2 powi e * 2 powi int k" by (rule power_int_add) simp
  finally have split: "(2::rat) powi E = 2 powi e * 2 ^ k" by simp
  have q: "?v / 2 powi e = of_int (M * 2 ^ k)" by (simp add: split)
  have m: "round_half_even (?v / 2 powi e) = M * 2 ^ k"
    unfolding q by (rule round_half_even_of_int)
  have same: "of_int (M * 2 ^ k) * (2::rat) powi e = ?v" by (simp add: split)
  have fits: "\<not> (971 < e \<or> (e = 971 \<and> 2 ^ 53 \<le> \<bar>M * 2 ^ k\<bar>))"
  proof (cases "e = 971")
    case True
    with e E have "k = 0" by (simp add: k_def)
    with M True show ?thesis by simp
  next
    case False
    with e E show ?thesis by simp
  qed
  have "double_of ?v = Fin (of_int (M * 2 ^ k) * 2 powi e)"
    unfolding double_of_def Let_def e_def [symmetric] m using v0 fits by (simp only: if_False)
  then show ?thesis by (simp only: same)
qed

lemma double_of_of_int:
  assumes "\<bar>n\<bar> < 2 ^ 53"
  shows "double_of (of_int n) = Fin (of_int n)"
  using double_of_dyadic [OF assms, of 0] by simp

lemma round_half_even_bound:
  assumes "\<bar>y\<bar> < of_int N"
  shows "\<bar>round_half_even y\<bar> \<le> N"
proof -
  from round_half_even_error [of y] have "\<bar>of_int (round_half_even y)\<bar> \<le> \<bar>y\<bar> + 1 / 2"
    by linarith
  with assms have "\<bar>of_int (round_half_even y) :: rat\<bar> < of_int N + 1 / 2" by linarith
  then have "(of_int \<bar>round_half_even y\<bar> :: rat) < of_int N + 1 / 2" by simp
  then have "(of_int \<bar>round_half_even y\<bar> :: rat) < of_int (N + 1)" by simp
  then have "\<bar>round_half_even y\<bar> < N + 1" by (simp only: of_int_less_iff)
  then show ?thesis by simp
qed

lemma double_of_idem:
  assumes "double_of x = Fin v"
  shows "double_of v = Fin v"
proof (cases x rule: double_of_cases)
  case zero
  with assms show ?thesis by (simp add: double_of_def)
next
  case over
  with assms show ?thesis by (simp split: if_splits)
next
  case fin
  let ?e = "ulp_exponent x"
  let ?m = "round_half_even (x / 2 powi ?e)"
  from fin assms have v: "v = of_int ?m * 2 powi ?e" by simp
  have fits: "\<not> (971 < ?e \<or> (?e = 971 \<and> 2 ^ 53 \<le> \<bar>?m\<bar>))"
  proof
    assume "971 < ?e \<or> (?e = 971 \<and> 2 ^ 53 \<le> \<bar>?m\<bar>)"
    with fin(1) have "double_of x = (if 0 < x then PosInf else NegInf)"
      by (simp add: double_of_def Let_def)
    with assms show False by (simp split: if_splits)
  qed
  have lo: "- 1074 \<le> ?e" and fl: "floor_log2 \<bar>x\<bar> - 52 \<le> ?e" by (simp_all add: ulp_exponent_def)
  from fin(1) have pos: "0 < \<bar>x\<bar>" by simp
  have u: "(0::rat) < 2 powi ?e" by simp
  have "\<bar>x\<bar> < 2 powi (floor_log2 \<bar>x\<bar> + 1)" by (rule floor_log2_bounds(2) [OF pos])
  also have "(2::rat) powi (floor_log2 \<bar>x\<bar> + 1) \<le> 2 powi (?e + 53)"
    using fl by (intro power_int_increasing) simp_all
  also have "(2::rat) powi (?e + 53) = 2 powi ?e * 2 powi 53" by (rule power_int_add) simp
  finally have "\<bar>x\<bar> / 2 powi ?e < 2 powi 53" using u by (simp add: field_simps)
  then have "\<bar>x / 2 powi ?e\<bar> < of_int (2 ^ 53)" by (simp add: abs_divide)
  from round_half_even_bound [OF this] have mb: "\<bar>?m\<bar> \<le> 2 ^ 53" .
  show ?thesis
  proof (cases "\<bar>?m\<bar> < 2 ^ 53")
    case True
    from fits have "?e \<le> 971" by simp
    from double_of_dyadic [OF True lo this] show ?thesis by (simp only: v)
  next
    case False
    with mb have eq: "\<bar>?m\<bar> = 2 ^ 53" by simp
    with fits have e971: "?e + 1 \<le> 971" by simp
    have lo': "- 1074 \<le> ?e + 1" using lo by simp
    define h where "h = ?m div 2"
    from eq have "?m = 2 ^ 53 \<or> ?m = - (2 ^ 53)" by linarith
    then have h: "?m = 2 * h" "\<bar>h\<bar> < 2 ^ 53" by (auto simp: h_def)
    have "(2::rat) powi (?e + 1) = 2 powi ?e * 2 powi 1" by (rule power_int_add) simp
    then have "of_int h * (2::rat) powi (?e + 1) = of_int ?m * 2 powi ?e" by (simp add: h(1))
    with double_of_dyadic [OF h(2) lo' e971] show ?thesis by (simp only: v)
  qed
qed

lemma num0_stored: "num0 (Some (double_of x)) = double_of x"
proof (cases "double_of x")
  case (Fin v)
  then have "double_of v = Fin v" by (rule double_of_idem)
  with Fin show ?thesis by simp
qed simp_all

lemma double_of_numeral:
  "\<bar>numeral k :: int\<bar> < 2 ^ 53 \<Longrightarrow> double_of (numeral k) = Fin (numeral k)"
  "\<bar>numeral k :: int\<bar> < 2 ^ 53 \<Longrightarrow> double_of (- numeral k) = Fin (- numeral k)"
  "double_of 0 = Fin 0"
  "double_of 1 = Fin 1"
  using double_of_of_int [of "numeral k"] double_of_of_int [of "- numeral k"]
    double_of_of_int [of 0] double_of_of_int [of 1]
  by simp_all

lemma double_of_overflow:
  assumes "2 powi 1024 \<le> x"
  shows "double_of x = PosInf"
proof -
  have "(0::rat) < 2 powi 1024" by simp
  from this assms have pos: "0 < x" by (rule less_le_trans)
  then have ax: "\<bar>x\<bar> = x" by simp
  from floor_log2_bounds(2) [OF pos] assms have lt: "(2::rat) powi 1024 < 2 powi (floor_log2 x + 1)"
    by (rule le_less_trans [rotated])
  have "1024 < floor_log2 x + 1"
  proof (rule ccontr)
    assume "\<not> 1024 < floor_log2 x + 1"
    then have "floor_log2 x + 1 \<le> 1024" by simp
    then have "(2::rat) powi (floor_log2 x + 1) \<le> 2 powi 1024"
      by (rule power_int_increasing) simp
    with lt show False by simp
  qed
  then have "971 < ulp_exponent x" by (simp add: ulp_exponent_def ax)
  with pos show ?thesis by (simp add: double_of_def Let_def)
qed

lemma double_of_ties:
  "double_of (2 ^ 53 + 1) = Fin (2 ^ 53)"
  "double_of (2 ^ 53 + 3) = Fin (2 ^ 53 + 4)"
  "double_of (- (2 ^ 53 + 1)) = Fin (- (2 ^ 53))"
  "double_of (1 / 3) = Fin (6004799503160661 / 2 ^ 54)"
  by code_simp+

lemma js_le_zero: "x \<noteq> NaN \<Longrightarrow> js_le x (Fin 0) \<longleftrightarrow> \<not> js_less (Fin 0) x"
  by (cases x) (auto simp: js_le_def)

lemma num0_not_NaN [simp]: "num0 x \<noteq> NaN"
  by (cases x rule: num0.cases) simp_all

lemma js_add_error:
  assumes "js_add (Fin a) (Fin b) = Fin n"
  shows "\<bar>n - (a + b)\<bar> \<le> \<bar>a + b\<bar> / 2 ^ 53 + half_denormal"
  using assms double_of_error [of "a + b" n] by simp

lemma js_sub_error:
  assumes "js_sub (Fin a) (Fin b) = Fin n"
  shows "\<bar>n - (a - b)\<bar> \<le> \<bar>a - b\<bar> / 2 ^ 53 + half_denormal"
  using assms double_of_error [of "a - b" n] by simp

subsection \<open>The tolerance of the payment handler\<close>

text \<open>
  The handler refuses a payment when \<^verbatim>\<open>payment_amount > history_due_amount + 0.01\<close>,
  three doubles and one rounded sum. For a due amount \<open>d\<close> far from overflow the
  comparison is true as soon as the exact amount exceeds \<open>d + 0.01\<close> by more than
  \<open>(\<bar>d\<bar> + 1) / 2\<^sup>5\<^sup>1\<close>, and when it is false the difference written back is not below
  \<open>-0.01 - (\<bar>d\<bar> + 1) / 2\<^sup>5\<^sup>2\<close>.
\<close>

lemma overflow_margin_ge_one: "1 \<le> overflow_margin"
proof -
  have "(2::rat) powi 0 \<le> 2 powi 1000" by (rule power_int_increasing) simp_all
  then show ?thesis by (simp only: overflow_margin_def power_int_0_right)
qed

lemma overflow_margin_finite:
  assumes "\<bar>x\<bar> \<le> 4 * overflow_margin"
  shows "\<exists>v. double_of x = Fin v"
proof -
  have "4 * overflow_margin = 2 powi 2 * 2 powi 1000"
    by (simp only: overflow_margin_def) simp
  also have "\<dots> = 2 powi (2 + 1000)" by (rule power_int_add [symmetric]) simp
  also have "\<dots> < 2 powi 1023" by (rule power_int_strict_increasing) simp_all
  finally have "\<bar>x\<bar> < 2 powi 1023" using assms by (rule le_less_trans [rotated])
  then show ?thesis by (rule double_of_finite)
qed

lemma tolerance_value: "double_of (1 / 100) = Fin (5764607523034235 / 2 ^ 59)"
  by code_simp

lemma below_overflow_margin:
  assumes "\<bar>x\<bar> \<le> 2 ^ 10"
  shows "\<bar>x\<bar> \<le> overflow_margin"
proof -
  have "(2::rat) powi 10 \<le> 2 powi 1000" by (rule power_int_increasing) simp_all
  then have "(2::rat) ^ 10 \<le> overflow_margin" by (simp only: overflow_margin_def) simp
  with assms show ?thesis by (rule order_trans)
qed

lemma abs_error_lower:
  fixes v r e :: rat
  shows "\<bar>v - r\<bar> \<le> e \<Longrightarrow> r - e \<le> v"
  by linarith

lemma threshold_arith_pos:
  fixes d a r s v h :: rat
  assumes "d \<le> a" "- d \<le> a" "0 \<le> h" "h \<le> 1 / 2 ^ 60"
    and "s \<le> d + 5764607523034235 / 2 ^ 59 + (a + 5764607523034235 / 2 ^ 59) / 2 ^ 53 + h"
    and "r - r / 2 ^ 53 - h \<le> v"
    and "d + 1 / 100 + (a + 1) / 2 ^ 51 < r"
  shows "s < v"
  using assms by (simp add: field_simps)

lemma threshold_arith_neg:
  fixes d a r s v h :: rat
  assumes "d \<le> a" "- d \<le> a" "0 \<le> h" "h \<le> 1 / 2 ^ 60"
    and "s \<le> d + 5764607523034235 / 2 ^ 59 + (a + 5764607523034235 / 2 ^ 59) / 2 ^ 53 + h"
    and "r + r / 2 ^ 53 - h \<le> v"
    and "d + 1 / 100 + (a + 1) / 2 ^ 51 < r"
  shows "s < v"
  using assms by (simp add: field_simps)

lemma bound_arith:
  fixes d a s v n h :: rat
  assumes "d \<le> a" "- d \<le> a" "0 \<le> h" "h \<le> 1 / 2 ^ 60"
    and "s \<le> d + 5764607523034235 / 2 ^ 59 + (a + 5764607523034235 / 2 ^ 59) / 2 ^ 53 + h"
    and "v \<le> s"
    and "(d - v) - (v - d) / 2 ^ 53 - h \<le> n"
  shows "- (1 / 100) - (a + 1) / 2 ^ 52 \<le> n"
  using assms by (simp add: field_simps)

lemma range_arith:
  fixes d a s v h m :: rat
  assumes "d \<le> a" "- d \<le> a" "a \<le> m" "1 \<le> m" "0 \<le> h" "h \<le> 1 / 2 ^ 60"
    and "s \<le> d + 5764607523034235 / 2 ^ 59 + (a + 5764607523034235 / 2 ^ 59) / 2 ^ 53 + h"
    and "0 \<le> v" "v \<le> s"
  shows "d - v \<le> 4 * m" "v - d \<le> 4 * m"
  using assms by (simp_all add: field_simps)

lemma due_plus_tolerance:
  assumes "\<bar>d\<bar> \<le> overflow_margin"
  shows "\<exists>s. js_add (Fin d) (double_of (1 / 100)) = Fin s
           \<and> s \<le> d + 5764607523034235 / 2 ^ 59 + (\<bar>d\<bar> + 5764607523034235 / 2 ^ 59) / 2 ^ 53
                    + half_denormal"
proof -
  let ?t = "5764607523034235 / 2 ^ 59 :: rat"
  have tri: "\<bar>d + ?t\<bar> \<le> \<bar>d\<bar> + ?t"
    using abs_triangle_ineq [of d ?t] by simp
  have "\<bar>d\<bar> + ?t \<le> 4 * overflow_margin"
    using assms overflow_margin_ge_one by (simp add: field_simps)
  with tri have "\<bar>d + ?t\<bar> \<le> 4 * overflow_margin" by (rule order_trans)
  from overflow_margin_finite [OF this] obtain s where s: "double_of (d + ?t) = Fin s" by blast
  from double_of_error [OF s] have "\<bar>s - (d + ?t)\<bar> \<le> \<bar>d + ?t\<bar> / 2 ^ 53 + half_denormal" .
  then have "s - (d + ?t) \<le> \<bar>d + ?t\<bar> / 2 ^ 53 + half_denormal" by (rule order_trans [OF abs_ge_self])
  also have "\<dots> \<le> (\<bar>d\<bar> + ?t) / 2 ^ 53 + half_denormal"
    using tri by (simp add: divide_right_mono)
  finally have "s \<le> d + ?t + (\<bar>d\<bar> + ?t) / 2 ^ 53 + half_denormal" by simp
  moreover have "js_add (Fin d) (double_of (1 / 100)) = Fin s"
    by (simp only: tolerance_value js_add.simps s)
  ultimately show ?thesis by blast
qed

lemma double_of_NegInf_below:
  assumes "double_of r = NegInf"
  shows "r < - (4 * overflow_margin)"
proof (rule ccontr)
  assume "\<not> r < - (4 * overflow_margin)"
  then have lo: "- (4 * overflow_margin) \<le> r" by simp
  have "r < 0" using double_of_pos_not_NegInf [of r] assms by (cases "0 \<le> r") simp_all
  with lo have "\<bar>r\<bar> \<le> 4 * overflow_margin" by simp
  from overflow_margin_finite [OF this] assms show False by simp
qed

lemma overpayment_threshold:
  assumes "\<bar>d\<bar> \<le> overflow_margin" "d + 1 / 100 + (\<bar>d\<bar> + 1) / 2 ^ 51 < r"
  shows "js_less (js_add (Fin d) (double_of (1 / 100))) (double_of r)"
proof -
  from due_plus_tolerance [OF assms(1)] obtain s where
    s: "js_add (Fin d) (double_of (1 / 100)) = Fin s"
    and su: "s \<le> d + 5764607523034235 / 2 ^ 59 + (\<bar>d\<bar> + 5764607523034235 / 2 ^ 59) / 2 ^ 53
                    + half_denormal"
    by blast
  have d: "d \<le> \<bar>d\<bar>" "- d \<le> \<bar>d\<bar>" by simp_all
  have h: "0 \<le> half_denormal" using half_denormal_pos by simp
  show ?thesis
  proof (cases "double_of r")
    case NaN
    then show ?thesis by simp
  next
    case PosInf
    then show ?thesis by (simp add: s)
  next
    case NegInf
    from double_of_NegInf_below [OF this] have "r < - (4 * overflow_margin)" .
    moreover have "- overflow_margin \<le> d" using assms(1) by simp
    moreover have "0 \<le> (\<bar>d\<bar> + 1) / 2 ^ 51" by simp
    ultimately have False using assms(2) overflow_margin_ge_one by linarith
    then show ?thesis ..
  next
    case (Fin v)
    from double_of_error [OF Fin] have e: "\<bar>v - r\<bar> \<le> \<bar>r\<bar> / 2 ^ 53 + half_denormal" .
    have lo: "r - (\<bar>r\<bar> / 2 ^ 53 + half_denormal) \<le> v"
      by (rule abs_error_lower [OF e])
    have "s < v"
    proof (cases "0 \<le> r")
      case True
      with lo have "r - r / 2 ^ 53 - half_denormal \<le> v" by (simp add: algebra_simps)
      from threshold_arith_pos [OF d h half_denormal_small su this assms(2)] show ?thesis .
    next
      case False
      with lo have "r + r / 2 ^ 53 - half_denormal \<le> v" by (simp add: algebra_simps)
      from threshold_arith_neg [OF d h half_denormal_small su this assms(2)] show ?thesis .
    qed
    then show ?thesis by (simp add: s Fin)
  qed
qed

lemma accepted_due_lower_bound:
  assumes "\<bar>d\<bar> \<le> overflow_margin" "js_less (Fin 0) (double_of r)"
    and "\<not> js_less (js_add (Fin d) (double_of (1 / 100))) (double_of r)"
  shows "\<exists>n. js_sub (Fin d) (double_of r) = Fin n \<and> - (1 / 100) - (\<bar>d\<bar> + 1) / 2 ^ 52 \<le> n"
proof -
  from due_plus_tolerance [OF assms(1)] obtain s where
    s: "js_add (Fin d) (double_of (1 / 100)) = Fin s"
    and su: "s \<le> d + 5764607523034235 / 2 ^ 59 + (\<bar>d\<bar> + 5764607523034235 / 2 ^ 59) / 2 ^ 53
                    + half_denormal"
    by blast
  have d: "d \<le> \<bar>d\<bar>" "- d \<le> \<bar>d\<bar>" by simp_all
  have h: "0 \<le> half_denormal" using half_denormal_pos by simp
  from assms(2,3) obtain v where v: "double_of r = Fin v" and pos: "0 < v" and le: "v \<le> s"
    by (cases "double_of r") (simp_all add: s)
  from pos have v0: "0 \<le> v" by simp
  have "\<bar>d - v\<bar> \<le> 4 * overflow_margin"
    using range_arith [OF d assms(1) overflow_margin_ge_one h half_denormal_small su v0 le]
    by (simp add: abs_le_iff)
  from overflow_margin_finite [OF this] obtain n where n: "double_of (d - v) = Fin n" by blast
  have sub: "js_sub (Fin d) (double_of r) = Fin n" by (simp add: v n)
  have "- (1 / 100) - (\<bar>d\<bar> + 1) / 2 ^ 52 \<le> n"
  proof (cases "0 \<le> d - v")
    case True
    from double_of_nonneg [OF True n] have "0 \<le> n" .
    moreover have "- (1 / 100) - (\<bar>d\<bar> + 1) / 2 ^ 52 \<le> (0::rat)"
      by (simp add: field_simps) 
    ultimately show ?thesis by (rule order_trans [rotated])
  next
    case False
    from double_of_error [OF n] have "\<bar>n - (d - v)\<bar> \<le> \<bar>d - v\<bar> / 2 ^ 53 + half_denormal" .
    then have "(d - v) - (\<bar>d - v\<bar> / 2 ^ 53 + half_denormal) \<le> n" by (rule abs_error_lower)
    with False have "(d - v) - (v - d) / 2 ^ 53 - half_denormal \<le> n"
      by (simp add: algebra_simps)
    from bound_arith [OF d h half_denormal_small su le this] show ?thesis .
  qed
  with sub show ?thesis by blast
qed

subsection \<open>The doubles of the examples\<close>

text \<open>
  The doubles nearest to the literals of the example requests, the same doubles read
  back from a column, and the sums and differences the handlers form of them: 0.1 + 0.2
  is 0.30000000000000004, 0.05 + 0.01 is 0.060000000000000005, 0.12 - 0.13 is
  -0.010000000000000009, 600.06 + 0.01 is 600.0699999999999.
\<close>

lemma double_of_literals:
  "double_of (5 / 100) = Fin (3602879701896397 / 2 ^ 56)"
  "double_of (1 / 10) = Fin (3602879701896397 / 2 ^ 55)"
  "double_of (12 / 100) = Fin (1080863910568919 / 2 ^ 53)"
  "double_of (13 / 100) = Fin (1170935903116329 / 2 ^ 53)"
  "double_of (2 / 10) = Fin (3602879701896397 / 2 ^ 54)"
  "double_of (60000000000000005 / 10 ^ 18) = Fin (8646911284551353 / 2 ^ 57)"
  "double_of (60001 / 100) = Fin (2638871887127511 / 2 ^ 42)"
  "double_of (60002 / 100) = Fin (1319457933796311 / 2 ^ 41)"
  "double_of (60006 / 100) = Fin (1319545894726533 / 2 ^ 41)"
  "double_of (60007 / 100) = Fin (5278271539836355 / 2 ^ 43)"
  by code_simp+

lemma double_of_stored:
  "double_of (3602879701896397 / 2 ^ 56) = Fin (3602879701896397 / 2 ^ 56)"
  "double_of (3602879701896397 / 2 ^ 55) = Fin (3602879701896397 / 2 ^ 55)"
  "double_of (1080863910568919 / 2 ^ 53) = Fin (1080863910568919 / 2 ^ 53)"
  "double_of (8106479329266893 / 2 ^ 53) = Fin (8106479329266893 / 2 ^ 53)"
  "double_of (1319545894726533 / 2 ^ 41) = Fin (1319545894726533 / 2 ^ 41)"
  by code_simp+

lemma double_of_sums:
  "double_of (1 - 3602879701896397 / 2 ^ 55) = Fin (8106479329266893 / 2 ^ 53)"
  "double_of (3602879701896397 / 2 ^ 55 + 3602879701896397 / 2 ^ 54) = Fin (1351079888211149 / 2 ^ 52)"
  "double_of (3602879701896397 / 2 ^ 56 + 5764607523034235 / 2 ^ 59) = Fin (8646911284551353 / 2 ^ 57)"
  "double_of (3602879701896397 / 2 ^ 56 - 8646911284551353 / 2 ^ 57) = Fin (- (1441151880758559 / 2 ^ 57))"
  "double_of (1080863910568919 / 2 ^ 53 + 5764607523034235 / 2 ^ 59) = Fin (1170935903116329 / 2 ^ 53)"
  "double_of (1080863910568919 / 2 ^ 53 - 1170935903116329 / 2 ^ 53) = Fin (- (45035996273705 / 2 ^ 52))"
  by code_simp+

lemma double_of_sums_whole:
  "double_of (8106479329266893 / 2 ^ 53 + 5764607523034235 / 2 ^ 59) = Fin (8196551321814303 / 2 ^ 53)"
  "double_of (600 + 5764607523034235 / 2 ^ 59) = Fin (2638871887127511 / 2 ^ 42)"
  "double_of (600 - 2638871887127511 / 2 ^ 42) = Fin (- (43980465111 / 2 ^ 42))"
  "double_of (0 - 2638871887127511 / 2 ^ 42) = Fin (- (2638871887127511 / 2 ^ 42))"
  "double_of (1319545894726533 / 2 ^ 41 + 5764607523034235 / 2 ^ 59) = Fin (2639135769918177 / 2 ^ 42)"
  by code_simp+

lemmas double_values =
  tolerance_value [simplified] double_of_literals [simplified] double_of_stored [simplified]
  double_of_sums [simplified] double_of_sums_whole [simplified]

subsection \<open>Auxiliary facts\<close>

lemmas example_defs = db_example_def student_example_def history_row_def
lemma find_map_keep:
  assumes "\<And>r. key (f r) = key r"
  shows "find (\<lambda>r. key r = k) (map (\<lambda>r. if key r = k then f r else r) rows)
         = map_option f (find (\<lambda>r. key r = k) rows)"
  using assms by (induction rows) auto

lemma apply_payment_body_success:
  assumes "apply_payment_body historyId payment_amount payment_method d = Inr d'"
  obtains literal hist student where
    "payment_amount = Number literal" "js_less (Fin 0) (double_of literal)"
    "payment_method = ''cash'' \<or> payment_method = ''online''"
    "find (\<lambda>r. h_id r = historyId) (student_membership_history d) = Some hist"
    "\<not> js_less (js_add (num0 (h_due_amount hist)) (double_of (1 / 100))) (double_of literal)"
    "find (\<lambda>r. s_id r = h_student_id hist) (students d) = Some student"
    "d' = d\<lparr>students := pay_student (h_student_id hist) student payment_method (double_of literal) (students d),
            student_membership_history :=
              pay_history historyId hist payment_method (double_of literal)
                (student_membership_history d)\<rparr>"
  using assms unfolding apply_payment_body_def
  by (auto split: jsval.splits if_splits option.splits simp: Let_def js_le_zero)

lemma transaction_success:
  "transaction fault body d = (Success, d') \<longleftrightarrow> (\<not> fault \<and> body d = Inr d')"
  by (auto simp: transaction_def split: sum.splits)


lemma find_pay_history:
  "find (\<lambda>r. h_id r = k) (pay_history k hist m a rows)
   = map_option (\<lambda>r. r\<lparr>h_cash := Some (js_add (num0 (h_cash hist)) (if m = ''cash'' then a else Fin 0)),
                        h_online := Some (js_add (num0 (h_online hist)) (if m = ''online'' then a else Fin 0)),
                        h_amount_paid := Some (js_add (num0 (h_amount_paid hist)) a),
                        h_due_amount := Some (js_sub (num0 (h_due_amount hist)) a)\<rparr>)
       (find (\<lambda>r. h_id r = k) rows)"
  unfolding pay_history_def Let_def by (rule find_map_keep) simp


lemma find_map_id:
  assumes "\<And>r. key (f r) = key r"
  shows "find (\<lambda>r. key r = k) (map f rows) = map_option f (find (\<lambda>r. key r = k) rows)"
  using assms by (induction rows) auto

lemma find_SomeD: "find P xs = Some x \<Longrightarrow> x \<in> set xs \<and> P x"
  by (induction xs) (auto split: if_splits)

lemma run_Success: "fst p = Success \<Longrightarrow> p = (Success, snd p)"
  by (cases p) simp

lemmas value_defs = missing_def truthy_def id_or_null_def isNaN_def js_neg_def js_le_def
  double_of_numeral status_at_def Let_def
lemmas registry_defs = seat_taken_def seat_taken_by_other_def insert_assignment_def
  insert_assignments_def firstShift_def delete_assignments_def release_lockers_of_def
  release_previous_def assign_locker_def enroll_locker_check_def locker_check_def
lemmas history_defs = append_history_def latest_history_id_def overwrite_latest_def
lemmas handler_defs = transaction_def enroll_def enroll_body_def edit_def edit_body_def
  renew_def renew_body_def set_status_def set_status_body_def

lemma insert_assignments_frame [simp]:
  "student_membership_history (insert_assignments seat shifts sid d) = student_membership_history d"
  "students (insert_assignments seat shifts sid d) = students d"
  "locker (insert_assignments seat shifts sid d) = locker d"
  "next_history_id (insert_assignments seat shifts sid d) = next_history_id d"
  "next_student_id (insert_assignments seat shifts sid d) = next_student_id d"
  "seats (insert_assignments seat shifts sid d) = seats d"
  "schedules (insert_assignments seat shifts sid d) = schedules d"
  unfolding insert_assignments_def
  by (induction shifts arbitrary: d; simp add: insert_assignment_def)+

lemma renew_body_history:
  assumes "renew_body now sid req d = Inr d'"
  shows "\<exists>row. student_membership_history d' = student_membership_history d @ [row]
             \<and> h_student_id row = sid"
  using assms unfolding renew_body_def
  by (auto simp: Let_def append_history_def history_row_def
           split: if_splits option.splits sum.splits dest!: find_Some_iff[THEN iffD1])

lemma overwrite_latest_length [simp]:
  "length (overwrite_latest sid st seat shift lk rows) = length rows"
  by (simp add: overwrite_latest_def split: option.splits)

lemma overwrite_latest_keys [simp]:
  "map h_student_id (overwrite_latest sid st seat shift lk rows) = map h_student_id rows"
  "map h_id (overwrite_latest sid st seat shift lk rows) = map h_id rows"
  by (simp_all add: overwrite_latest_def history_row_def split: option.splits)

lemma filter_key_length:
  assumes "map key xs = map key ys"
  shows "length (filter (\<lambda>r. key r = m) xs) = length (filter (\<lambda>r. key r = m) ys)"
proof -
  have "length (filter (\<lambda>r. key r = m) xs) = length (filter (\<lambda>k. k = m) (map key xs))"
    by (simp add: filter_map comp_def)
  also have "\<dots> = length (filter (\<lambda>k. k = m) (map key ys))" by (simp add: assms)
  also have "\<dots> = length (filter (\<lambda>r. key r = m) ys)" by (simp add: filter_map comp_def)
  finally show ?thesis .
qed

lemma changed_at_most_one:
  assumes "distinct (map key rows)"
  shows "length (filter (\<lambda>r. (if key r = k then f r else r) \<noteq> r) rows) \<le> 1"
proof -
  have "length (filter (\<lambda>r. (if key r = k then f r else r) \<noteq> r) rows)
        \<le> length (filter (\<lambda>r. key r = k) rows)"
    by (induction rows) auto
  also have "\<dots> \<le> 1"
    using assms by (induction rows) (auto simp: filter_empty_conv image_iff)
  finally show ?thesis .
qed

text \<open>The example states are states that Enroll produces from an empty database.\<close>

lemma example_states_reachable:
  "enroll False 110 (req_cash_only\<lparr>amount_paid := Number 400\<rparr>) db_empty = (Success, db_example)"
  "enroll False 110 (req_cash_only\<lparr>amount_paid := Number 400, locker_id := Some 1\<rparr>)
     (db_empty\<lparr>locker := [\<lparr>l_id = 1, l_is_assigned = False, l_student_id = None\<rparr>]\<rparr>)
   = (Success, db_locker_held)"
  "enroll False 110 (req_same_seat\<lparr>shift_ids := [], seat_id := None\<rparr>)
     (snd (enroll False 110 (req_cash_only\<lparr>amount_paid := Number 400, seat_id := Some 1, shift_ids := [1]\<rparr>) db_empty))
   = (Success, db_seat_held)"
  by (simp_all add: handler_defs value_defs registry_defs history_defs example_defs
        req_cash_only_def req_same_seat_def db_empty_def db_locker_held_def db_seat_held_def
        student_second_def)

lemma example_locker_inv: "locker_inv db_locker_held"
  by (simp add: locker_inv_def db_locker_held_def example_defs)


lemmas eval_defs = handler_defs apply_payment_def apply_payment_body_def pay_student_def
  pay_history_def value_defs registry_defs history_defs example_defs db_hundredths_def
  req_hundredths_def req_cash_only_def db_empty_def db_head_settled_def student_overpaid_def
  double_values

lemma apply_payment_valid_call:
  assumes "\<not> fault" "js_less (Fin 0) (double_of literal)"
    and "payment_method = ''cash'' \<or> payment_method = ''online''"
    and "find (\<lambda>r. h_id r = historyId) (student_membership_history d) = Some hist"
    and "find (\<lambda>r. s_id r = h_student_id hist) (students d) = Some student"
  shows "apply_payment fault historyId (Number literal) payment_method d =
           (if js_less (js_add (num0 (h_due_amount hist)) (double_of (1 / 100))) (double_of literal)
            then (Failure Conflict, d)
            else (Success,
                  d\<lparr>students := pay_student (h_student_id hist) student payment_method
                                   (double_of literal) (students d),
                    student_membership_history :=
                      pay_history historyId hist payment_method (double_of literal)
                        (student_membership_history d)\<rparr>))"
  using assms
  by (auto simp: apply_payment_def transaction_def apply_payment_body_def Let_def js_le_zero)

lemma apply_payment_conflict_only:
  assumes "fst (apply_payment fault historyId payment_amount payment_method d) = Failure Conflict"
  shows "\<exists>literal hist. payment_amount = Number literal
           \<and> find (\<lambda>r. h_id r = historyId) (student_membership_history d) = Some hist
           \<and> js_less (js_add (num0 (h_due_amount hist)) (double_of (1 / 100))) (double_of literal)"
  using assms
  by (auto simp: apply_payment_def transaction_def apply_payment_body_def Let_def
        split: if_splits jsval.splits option.splits)

subsection \<open>Payment processor\<close>




text \<open>
  C2, as amended. The overpayment test is the handler's own comparison,
  \<^verbatim>\<open>payment_amount > history_due_amount + 0.01\<close> on doubles. A call for which it is true
  fails and leaves the database as it was; the failure is \<open>Conflict\<close> when the amount is
  positive, the channel is cash or online and no storage fault occurs (amount and
  channel are validated first, and a call that fails that validation is answered
  \<open>ValidationError\<close>). \<open>Conflict\<close> is answered only when the comparison is true. And
  the comparison is true whenever the amount exceeds the due amount plus 0.01 by more
  than \<open>(\<bar>due\<bar> + 1) / 2\<^sup>5\<^sup>1\<close>, the due amount being finite and at most \<open>2\<^sup>1\<^sup>0\<^sup>0\<^sup>0\<close> in
  magnitude.
\<close>

theorem overpayment_rejected:
  assumes "find (\<lambda>r. h_id r = historyId) (student_membership_history d) = Some hist"
  shows "(js_less (js_add (num0 (h_due_amount hist)) (double_of (1 / 100))) (double_of amount) \<longrightarrow>
            snd (apply_payment fault historyId (Number amount) payment_method d) = d
          \<and> (\<exists>e. fst (apply_payment fault historyId (Number amount) payment_method d) = Failure e)
          \<and> (\<not> fault \<and> js_less (Fin 0) (double_of amount) \<and> payment_method \<in> {''cash'', ''online''}
               \<longrightarrow> fst (apply_payment fault historyId (Number amount) payment_method d)
                     = Failure Conflict))
       \<and> (fst (apply_payment fault historyId (Number amount) payment_method d) = Failure Conflict
            \<longrightarrow> js_less (js_add (num0 (h_due_amount hist)) (double_of (1 / 100))) (double_of amount))
       \<and> (\<forall>due. num0 (h_due_amount hist) = Fin due \<and> \<bar>due\<bar> \<le> overflow_margin
                 \<and> due + 1 / 100 + (\<bar>due\<bar> + 1) / 2 ^ 51 < amount
            \<longrightarrow> js_less (js_add (num0 (h_due_amount hist)) (double_of (1 / 100))) (double_of amount))"
proof (intro conjI allI impI)
  assume over: "js_less (js_add (num0 (h_due_amount hist)) (double_of (1 / 100))) (double_of amount)"
  show "snd (apply_payment fault historyId (Number amount) payment_method d) = d"
    using assms over
    by (auto simp: apply_payment_def transaction_def apply_payment_body_def Let_def)
  show "\<exists>e. fst (apply_payment fault historyId (Number amount) payment_method d) = Failure e"
    using assms over
    by (auto simp: apply_payment_def transaction_def apply_payment_body_def Let_def)
  assume "\<not> fault \<and> js_less (Fin 0) (double_of amount) \<and> payment_method \<in> {''cash'', ''online''}"
  then show "fst (apply_payment fault historyId (Number amount) payment_method d) = Failure Conflict"
    using assms over
    by (auto simp: apply_payment_def transaction_def apply_payment_body_def Let_def js_le_zero)
next
  assume "fst (apply_payment fault historyId (Number amount) payment_method d) = Failure Conflict"
  from apply_payment_conflict_only [OF this] assms
  show "js_less (js_add (num0 (h_due_amount hist)) (double_of (1 / 100))) (double_of amount)"
    by auto
next
  fix due
  assume "num0 (h_due_amount hist) = Fin due \<and> \<bar>due\<bar> \<le> overflow_margin
          \<and> due + 1 / 100 + (\<bar>due\<bar> + 1) / 2 ^ 51 < amount"
  then show "js_less (js_add (num0 (h_due_amount hist)) (double_of (1 / 100))) (double_of amount)"
    using overpayment_threshold [of due amount] by simp
qed

text \<open>
  700 in cash against a due amount of 600 is refused with \<open>Conflict\<close>; so is 600.02,
  and 600.01 is accepted.
\<close>

theorem overpayment_rejected_witness:
  "find (\<lambda>r. h_id r = 1) (student_membership_history db_example)
     = Some (history_row 1 1 student_example None None (Some 1) None)
   \<and> num0 (h_due_amount (history_row 1 1 student_example None None (Some 1) None)) = Fin 600
   \<and> \<bar>600\<bar> \<le> overflow_margin
   \<and> 600 + 1 / 100 + (\<bar>600\<bar> + 1) / 2 ^ 51 < (700 :: rat)
   \<and> js_less (Fin 0) (double_of 700)
   \<and> apply_payment False 1 (Number 700) ''cash'' db_example = (Failure Conflict, db_example)
   \<and> fst (apply_payment False 1 (Number (60002 / 100)) ''cash'' db_example) = Failure Conflict
   \<and> fst (apply_payment False 1 (Number (60001 / 100)) ''cash'' db_example) = Success"
proof -
  let ?hist = "history_row 1 1 student_example None None (Some 1) None"
  have h: "find (\<lambda>r. h_id r = 1) (student_membership_history db_example) = Some ?hist"
    by (simp add: example_defs)
  have n: "num0 (h_due_amount ?hist) = Fin 600"
    by (simp add: example_defs value_defs)
  have r: "\<bar>600\<bar> \<le> overflow_margin"
    by (rule below_overflow_margin) simp
  have t: "600 + 1 / 100 + (\<bar>600\<bar> + 1) / 2 ^ 51 < (700 :: rat)"
    by simp
  have pos: "js_less (Fin 0) (double_of 700)"
    by (simp add: value_defs)
  have m: "''cash'' \<in> {''cash'', ''online''}"
    by simp
  note rejected = overpayment_rejected [OF h, of 700 False "''cash''"]
  from rejected n r t
  have over: "js_less (js_add (num0 (h_due_amount ?hist)) (double_of (1 / 100))) (double_of 700)"
    by blast
  from rejected over pos m
  have "snd (apply_payment False 1 (Number 700) ''cash'' db_example) = db_example"
    and "fst (apply_payment False 1 (Number 700) ''cash'' db_example) = Failure Conflict"
    by blast+
  then have run: "apply_payment False 1 (Number 700) ''cash'' db_example = (Failure Conflict, db_example)"
    by (simp add: prod_eq_iff)
  have cent: "fst (apply_payment False 1 (Number (60002 / 100)) ''cash'' db_example) = Failure Conflict"
    "fst (apply_payment False 1 (Number (60001 / 100)) ''cash'' db_example) = Success"
    by (simp_all add: eval_defs)
  from h n r t pos run cent show ?thesis by blast
qed

text \<open>
  C2 as stated fails, in two ways. 700 against a due amount of 600 with the channel
  \<open>cheque\<close> is answered with the validation error, not with \<open>Conflict\<close>. And against a
  due amount of 0.05 the amount 0.060000000000000005 is greater than the due amount plus
  0.01, as a literal and as a double, yet \<open>0.05 + 0.01\<close> evaluates to that very double:
  the comparison is false and the payment is accepted.
\<close>

theorem overpayment_not_always_conflict:
  "h_due_amount (history_row 1 1 student_example None None (Some 1) None) = Some (Fin 600)
   \<and> (600 + 1 / 100 :: rat) < 700
   \<and> find (\<lambda>r. h_id r = 1) (student_membership_history db_example)
       = Some (history_row 1 1 student_example None None (Some 1) None)
   \<and> apply_payment False 1 (Number 700) ''cheque'' db_example = (Failure ValidationError, db_example)
   \<and> fst (apply_payment False 1 (Number 700) ''cheque'' db_example) \<noteq> Failure Conflict
   \<and> fst (enroll False 110 (req_hundredths 5 0) db_empty) = Success
   \<and> map h_due_amount (student_membership_history (db_hundredths 5 0))
       = [Some (Fin (3602879701896397 / 2 ^ 56))]
   \<and> double_of (60000000000000005 / 10 ^ 18) = Fin (8646911284551353 / 2 ^ 57)
   \<and> (3602879701896397 / 2 ^ 56 + 1 / 100 :: rat) < 8646911284551353 / 2 ^ 57
   \<and> (3602879701896397 / 2 ^ 56 + 1 / 100 :: rat) < 60000000000000005 / 10 ^ 18
   \<and> fst (apply_payment False 1 (Number (60000000000000005 / 10 ^ 18)) ''cash'' (db_hundredths 5 0))
       = Success
   \<and> map h_due_amount (student_membership_history
        (snd (apply_payment False 1 (Number (60000000000000005 / 10 ^ 18)) ''cash'' (db_hundredths 5 0))))
       = [Some (Fin (- (1441151880758559 / 2 ^ 57)))]"
  by (simp add: eval_defs)

text \<open>
  C10, as amended. After a successful payment the due amount of the targeted history
  row is the double nearest to its previous due amount minus the amount. When the
  previous due amount is finite and at most \<open>2\<^sup>1\<^sup>0\<^sup>0\<^sup>0\<close> in magnitude, the new one is a
  finite number not below \<open>-0.01 - (\<bar>due\<bar> + 1) / 2\<^sup>5\<^sup>2\<close>. The acceptance check reads the
  history row only: the payment is accepted whatever the due amount of the member head
  is. A call with a positive amount and a valid channel that finds both rows, without a
  storage fault, succeeds exactly when the amount is not greater than the due amount of
  the history row plus 0.01, compared on doubles.
\<close>

theorem payment_due_bounded_below:
  "(\<forall>d'. apply_payment fault historyId payment_amount payment_method d = (Success, d') \<longrightarrow>
      (\<exists>amount hist hist'.
            payment_amount = Number amount
          \<and> find (\<lambda>r. h_id r = historyId) (student_membership_history d) = Some hist
          \<and> find (\<lambda>r. h_id r = historyId) (student_membership_history d') = Some hist'
          \<and> h_due_amount hist' = Some (js_sub (num0 (h_due_amount hist)) (double_of amount))
          \<and> (\<forall>due. num0 (h_due_amount hist) = Fin due \<and> \<bar>due\<bar> \<le> overflow_margin \<longrightarrow>
                (\<exists>n. h_due_amount hist' = Some (Fin n)
                    \<and> - (1 / 100) - (\<bar>due\<bar> + 1) / 2 ^ 52 \<le> n)))
      \<and> (\<forall>x. fst (apply_payment fault historyId payment_amount payment_method
                     (d\<lparr>students := map (\<lambda>r. r\<lparr>s_due_amount := x\<rparr>) (students d)\<rparr>)) = Success))
   \<and> (\<forall>amount hist student.
         payment_amount = Number amount \<and> \<not> fault \<and> js_less (Fin 0) (double_of amount)
         \<and> payment_method \<in> {''cash'', ''online''}
         \<and> find (\<lambda>r. h_id r = historyId) (student_membership_history d) = Some hist
         \<and> find (\<lambda>r. s_id r = h_student_id hist) (students d) = Some student
       \<longrightarrow> (fst (apply_payment fault historyId payment_amount payment_method d) = Success)
             = (\<not> js_less (js_add (num0 (h_due_amount hist)) (double_of (1 / 100)))
                    (double_of amount)))"
proof (intro conjI allI impI)
  fix amount hist student
  assume "payment_amount = Number amount \<and> \<not> fault \<and> js_less (Fin 0) (double_of amount)
         \<and> payment_method \<in> {''cash'', ''online''}
         \<and> find (\<lambda>r. h_id r = historyId) (student_membership_history d) = Some hist
         \<and> find (\<lambda>r. s_id r = h_student_id hist) (students d) = Some student"
  then have a: "payment_amount = Number amount" and nf: "\<not> fault"
    and pos: "js_less (Fin 0) (double_of amount)"
    and m: "payment_method = ''cash'' \<or> payment_method = ''online''"
    and h: "find (\<lambda>r. h_id r = historyId) (student_membership_history d) = Some hist"
    and s: "find (\<lambda>r. s_id r = h_student_id hist) (students d) = Some student"
    by auto
  show "(fst (apply_payment fault historyId payment_amount payment_method d) = Success)
             = (\<not> js_less (js_add (num0 (h_due_amount hist)) (double_of (1 / 100)))
                    (double_of amount))"
    unfolding a apply_payment_valid_call [OF nf pos m h s] by simp
next
  fix d'
  assume run: "apply_payment fault historyId payment_amount payment_method d = (Success, d')"
  then have body: "apply_payment_body historyId payment_amount payment_method d = Inr d'"
    and nf: "\<not> fault"
    by (simp_all add: apply_payment_def transaction_success)
  from body show "\<exists>amount hist hist'.
            payment_amount = Number amount
          \<and> find (\<lambda>r. h_id r = historyId) (student_membership_history d) = Some hist
          \<and> find (\<lambda>r. h_id r = historyId) (student_membership_history d') = Some hist'
          \<and> h_due_amount hist' = Some (js_sub (num0 (h_due_amount hist)) (double_of amount))
          \<and> (\<forall>due. num0 (h_due_amount hist) = Fin due \<and> \<bar>due\<bar> \<le> overflow_margin \<longrightarrow>
                (\<exists>n. h_due_amount hist' = Some (Fin n)
                    \<and> - (1 / 100) - (\<bar>due\<bar> + 1) / 2 ^ 52 \<le> n))"
  proof (rule apply_payment_body_success)
    fix amount hist student
    assume a: "payment_amount = Number amount" and pos: "js_less (Fin 0) (double_of amount)"
      and h: "find (\<lambda>r. h_id r = historyId) (student_membership_history d) = Some hist"
      and le: "\<not> js_less (js_add (num0 (h_due_amount hist)) (double_of (1 / 100))) (double_of amount)"
      and d': "d' = d\<lparr>students := pay_student (h_student_id hist) student payment_method
                                      (double_of amount) (students d),
            student_membership_history :=
              pay_history historyId hist payment_method (double_of amount)
                (student_membership_history d)\<rparr>"
    let ?hist' = "hist\<lparr>h_cash := Some (js_add (num0 (h_cash hist))
                                      (if payment_method = ''cash'' then double_of amount else Fin 0)),
                       h_online := Some (js_add (num0 (h_online hist))
                                      (if payment_method = ''online'' then double_of amount else Fin 0)),
                       h_amount_paid := Some (js_add (num0 (h_amount_paid hist)) (double_of amount)),
                       h_due_amount := Some (js_sub (num0 (h_due_amount hist)) (double_of amount))\<rparr>"
    have f: "find (\<lambda>r. h_id r = historyId) (student_membership_history d') = Some ?hist'"
      using h unfolding d' by (simp add: find_pay_history)
    have due: "h_due_amount ?hist' = Some (js_sub (num0 (h_due_amount hist)) (double_of amount))"
      by simp
    have bound: "\<exists>n. h_due_amount ?hist' = Some (Fin n) \<and> - (1 / 100) - (\<bar>due\<bar> + 1) / 2 ^ 52 \<le> n"
      if "num0 (h_due_amount hist) = Fin due \<and> \<bar>due\<bar> \<le> overflow_margin" for due
    proof -
      from that have n: "num0 (h_due_amount hist) = Fin due" and r: "\<bar>due\<bar> \<le> overflow_margin"
        by simp_all
      from le have "\<not> js_less (js_add (Fin due) (double_of (1 / 100))) (double_of amount)"
        unfolding n .
      from accepted_due_lower_bound [OF r pos this] obtain k where
        "js_sub (Fin due) (double_of amount) = Fin k" "- (1 / 100) - (\<bar>due\<bar> + 1) / 2 ^ 52 \<le> k"
        by blast
      then have "h_due_amount ?hist' = Some (Fin k) \<and> - (1 / 100) - (\<bar>due\<bar> + 1) / 2 ^ 52 \<le> k"
        unfolding due n by simp
      then show ?thesis by (rule exI)
    qed
    from a h f due bound show ?thesis by blast
  qed
  fix x
  from body show "fst (apply_payment fault historyId payment_amount payment_method
                     (d\<lparr>students := map (\<lambda>r. r\<lparr>s_due_amount := x\<rparr>) (students d)\<rparr>)) = Success"
  proof (rule apply_payment_body_success)
    fix amount hist student
    assume a: "payment_amount = Number amount" and pos: "js_less (Fin 0) (double_of amount)"
      and m: "payment_method = ''cash'' \<or> payment_method = ''online''"
      and h: "find (\<lambda>r. h_id r = historyId) (student_membership_history d) = Some hist"
      and le: "\<not> js_less (js_add (num0 (h_due_amount hist)) (double_of (1 / 100))) (double_of amount)"
      and s: "find (\<lambda>r. s_id r = h_student_id hist) (students d) = Some student"
    have "find (\<lambda>r. s_id r = h_student_id hist) (map (\<lambda>r. r\<lparr>s_due_amount := x\<rparr>) (students d))
            = map_option (\<lambda>r. r\<lparr>s_due_amount := x\<rparr>) (find (\<lambda>r. s_id r = h_student_id hist) (students d))"
      by (rule find_map_id) simp
    then have s': "find (\<lambda>r. s_id r = h_student_id hist)
                     (students (d\<lparr>students := map (\<lambda>r. r\<lparr>s_due_amount := x\<rparr>) (students d)\<rparr>))
                   = Some (student\<lparr>s_due_amount := x\<rparr>)"
      by (simp add: s)
    have h': "find (\<lambda>r. h_id r = historyId)
                (student_membership_history (d\<lparr>students := map (\<lambda>r. r\<lparr>s_due_amount := x\<rparr>) (students d)\<rparr>))
              = Some hist"
      by (simp add: h)
    show ?thesis
      unfolding a apply_payment_valid_call [OF nf pos m h' s'] using le by simp
  qed
qed

text \<open>
  600.01 in cash against a history row with 600 due and a head with nothing due: the
  payment is accepted, the row's due amount becomes -0.009999999999990905 and the
  head's -600.01; it is accepted with 5000 due on the head as well, and 600.02 is
  refused.
\<close>

theorem payment_due_bounded_below_witness:
  "fst (apply_payment False 1 (Number (60001 / 100)) ''cash'' db_head_settled) = Success
   \<and> map h_due_amount (student_membership_history db_head_settled) = [Some (Fin 600)]
   \<and> map s_due_amount (students db_head_settled) = [Some (Fin 0)]
   \<and> \<bar>600\<bar> \<le> overflow_margin
   \<and> map h_due_amount (student_membership_history
        (snd (apply_payment False 1 (Number (60001 / 100)) ''cash'' db_head_settled)))
       = [Some (Fin (- (43980465111 / 2 ^ 42)))]
   \<and> (- (43980465111 / 2 ^ 42) :: rat) < 0
   \<and> - (1 / 100) - (\<bar>600\<bar> + 1) / 2 ^ 52 \<le> (- (43980465111 / 2 ^ 42) :: rat)
   \<and> map s_due_amount (students
        (snd (apply_payment False 1 (Number (60001 / 100)) ''cash'' db_head_settled)))
       = [Some (Fin (- (2638871887127511 / 2 ^ 42)))]
   \<and> fst (apply_payment False 1 (Number (60001 / 100)) ''cash''
            (db_head_settled\<lparr>students := map (\<lambda>r. r\<lparr>s_due_amount := Some (Fin 5000)\<rparr>)
                                             (students db_head_settled)\<rparr>)) = Success
   \<and> fst (apply_payment False 1 (Number (60002 / 100)) ''cash'' db_head_settled) = Failure Conflict"
proof -
  have run: "apply_payment False 1 (Number (60001 / 100)) ''cash'' db_head_settled
             = (Success, snd (apply_payment False 1 (Number (60001 / 100)) ''cash'' db_head_settled))"
    by (simp add: eval_defs)
  have before: "map h_due_amount (student_membership_history db_head_settled) = [Some (Fin 600)]"
    "map s_due_amount (students db_head_settled) = [Some (Fin 0)]"
    by (simp_all add: eval_defs)
  have r: "\<bar>600\<bar> \<le> overflow_margin"
    by (rule below_overflow_margin) simp
  have after: "map h_due_amount (student_membership_history
        (snd (apply_payment False 1 (Number (60001 / 100)) ''cash'' db_head_settled)))
       = [Some (Fin (- (43980465111 / 2 ^ 42)))]"
    "map s_due_amount (students
        (snd (apply_payment False 1 (Number (60001 / 100)) ''cash'' db_head_settled)))
       = [Some (Fin (- (2638871887127511 / 2 ^ 42)))]"
    by (simp_all add: eval_defs)
  have neg: "(- (43980465111 / 2 ^ 42) :: rat) < 0"
    "- (1 / 100) - (\<bar>600\<bar> + 1) / 2 ^ 52 \<le> (- (43980465111 / 2 ^ 42) :: rat)"
    by simp_all
  have refused: "fst (apply_payment False 1 (Number (60002 / 100)) ''cash'' db_head_settled)
                 = Failure Conflict"
    by (simp add: eval_defs)
  have accepted: "fst (apply_payment False 1 (Number (60001 / 100)) ''cash'' db_head_settled) = Success"
    by (simp add: eval_defs)
  from payment_due_bounded_below [of False 1 "Number (60001 / 100)" "''cash''" db_head_settled] run
  have "fst (apply_payment False 1 (Number (60001 / 100)) ''cash''
            (db_head_settled\<lparr>students := map (\<lambda>r. r\<lparr>s_due_amount := Some (Fin 5000)\<rparr>)
                                             (students db_head_settled)\<rparr>)) = Success"
    by blast
  with accepted before r after neg refused show ?thesis by blast
qed

text \<open>
  C10 as stated fails: \<open>-0.01\<close> is not a lower bound. Against a due amount of 0.12 the
  amount 0.13 is accepted, \<open>0.12 + 0.01\<close> being the double 0.13, and leaves
  -0.010000000000000009 due.
\<close>

theorem payment_due_below_tolerance:
  "fst (enroll False 110 (req_hundredths 12 0) db_empty) = Success
   \<and> map h_due_amount (student_membership_history (db_hundredths 12 0))
       = [Some (Fin (1080863910568919 / 2 ^ 53))]
   \<and> fst (apply_payment False 1 (Number (13 / 100)) ''cash'' (db_hundredths 12 0)) = Success
   \<and> map h_due_amount (student_membership_history
        (snd (apply_payment False 1 (Number (13 / 100)) ''cash'' (db_hundredths 12 0))))
       = [Some (Fin (- (45035996273705 / 2 ^ 52)))]
   \<and> (- (45035996273705 / 2 ^ 52) :: rat) < - (1 / 100)"
  by (simp add: eval_defs)

text \<open>
  In the other direction the tolerance is less than a hundredth: 600.07 against a due
  amount of 600.06 is refused, \<open>600.06 + 0.01\<close> being 600.0699999999999.
\<close>

lemma cent_boundary_refused:
  "map h_due_amount (student_membership_history (db_hundredths 60006 0))
       = [Some (Fin (1319545894726533 / 2 ^ 41))]
   \<and> (60007 / 100 :: rat) \<le> 60006 / 100 + 1 / 100
   \<and> js_add (Fin (1319545894726533 / 2 ^ 41)) (double_of (1 / 100)) = Fin (2639135769918177 / 2 ^ 42)
   \<and> double_of (60007 / 100) = Fin (5278271539836355 / 2 ^ 43)
   \<and> (2639135769918177 / 2 ^ 42 :: rat) < 5278271539836355 / 2 ^ 43
   \<and> apply_payment False 1 (Number (60007 / 100)) ''cash'' (db_hundredths 60006 0)
       = (Failure Conflict, db_hundredths 60006 0)"
  by (simp add: eval_defs)

subsection \<open>History trail\<close>

lemma max_id_None: "max_id xs = None \<longleftrightarrow> xs = []"
  by (induction xs) (auto split: option.splits)

lemma max_id_SomeD:
  "max_id xs = Some m \<Longrightarrow> m \<in> set xs \<and> (\<forall>x \<in> set xs. x \<le> m)"
proof (induction xs arbitrary: m)
  case Nil
  then show ?case by simp
next
  case (Cons x xs)
  show ?case
  proof (cases "max_id xs")
    case None
    then have "xs = []" by (simp add: max_id_None)
    with Cons.prems show ?thesis by simp
  next
    case (Some k)
    from Cons.IH [OF Some] have k: "k \<in> set xs" "\<forall>y \<in> set xs. y \<le> k" by simp_all
    from Cons.prems Some have m: "m = max x k" by simp
    from k m show ?thesis by (auto simp: max_def)
  qed
qed

lemma max_id_Some: "max_id xs = Some m \<longleftrightarrow> m \<in> set xs \<and> (\<forall>x \<in> set xs. x \<le> m)"
proof
  assume "max_id xs = Some m"
  then show "m \<in> set xs \<and> (\<forall>x \<in> set xs. x \<le> m)" by (rule max_id_SomeD)
next
  assume a: "m \<in> set xs \<and> (\<forall>x \<in> set xs. x \<le> m)"
  then have "xs \<noteq> []" by auto
  then obtain k where k: "max_id xs = Some k"
    using max_id_None [of xs] by (cases "max_id xs") simp_all
  from max_id_SomeD [OF k] a have "k \<le> m" "m \<le> k" by simp_all
  with k show "max_id xs = Some m" by simp
qed

lemma latest_history_id_Some:
  "latest_history_id sid rows = Some k \<longleftrightarrow>
     (\<exists>r \<in> set rows. h_student_id r = sid \<and> h_id r = k)
     \<and> (\<forall>r \<in> set rows. h_student_id r = sid \<longrightarrow> h_id r \<le> k)"
  unfolding latest_history_id_def max_id_Some by auto

lemma latest_history_id_None:
  "latest_history_id sid rows = None \<longleftrightarrow> (\<forall>r \<in> set rows. h_student_id r \<noteq> sid)"
  unfolding latest_history_id_def max_id_None by (auto simp: filter_empty_conv)

lemma overwrite_latest_nth:
  assumes "i < length rows"
  shows "overwrite_latest sid head seat shift lk rows ! i =
           (if (\<exists>r \<in> set rows. h_student_id r = sid \<and> h_id r = h_id (rows ! i))
               \<and> (\<forall>r \<in> set rows. h_student_id r = sid \<longrightarrow> h_id r \<le> h_id (rows ! i))
            then history_row (h_id (rows ! i)) (h_student_id (rows ! i)) head seat shift
                   (s_branch_id head) lk
            else rows ! i)"
proof (cases "latest_history_id sid rows")
  case None
  then have "\<forall>r \<in> set rows. h_student_id r \<noteq> sid" by (simp add: latest_history_id_None)
  then have c: "(\<exists>r \<in> set rows. h_student_id r = sid \<and> h_id r = h_id (rows ! i))
               \<and> (\<forall>r \<in> set rows. h_student_id r = sid \<longrightarrow> h_id r \<le> h_id (rows ! i))
             \<longleftrightarrow> False"
    by blast
  show ?thesis
    unfolding c by (simp add: overwrite_latest_def None)
next
  case (Some k)
  have "latest_history_id sid rows = Some (h_id (rows ! i)) \<longleftrightarrow> h_id (rows ! i) = k"
    using Some by auto
  then have c: "(\<exists>r \<in> set rows. h_student_id r = sid \<and> h_id r = h_id (rows ! i))
               \<and> (\<forall>r \<in> set rows. h_student_id r = sid \<longrightarrow> h_id r \<le> h_id (rows ! i))
             \<longleftrightarrow> h_id (rows ! i) = k"
    by (simp only: latest_history_id_Some)
  show ?thesis
    unfolding c using assms Some by (simp add: overwrite_latest_def)
qed

lemma edit_body_snapshot:
  assumes "edit_body now sid req d = Inr d'"
  shows "\<exists>head. find (\<lambda>r. s_id r = sid) (students d') = Some head
           \<and> student_membership_history d' =
               overwrite_latest sid head (id_or_null (seat_id req)) (firstShift (shift_ids req))
                 (id_or_null (locker_id req)) (student_membership_history d)
           \<and> s_total_fee head = Some (parseFloat_or0 (total_fee req))
           \<and> s_amount_paid head = Some (parseFloat_or0 (amount_paid req))
           \<and> s_discount head = Some (parseFloat_or0 (discount req))
           \<and> s_due_amount head =
               Some (js_sub (js_sub (parseFloat_or0 (total_fee req)) (parseFloat_or0 (discount req)))
                       (parseFloat_or0 (amount_paid req)))
           \<and> to_column (cash req) = Inr (s_cash head)
           \<and> to_column (online req) = Inr (s_online head)
           \<and> to_column (security_money req) = Inr (s_security_money head)
           \<and> s_membership_start head = membership_start req
           \<and> s_membership_end head = membership_end req
           \<and> s_status head = status_at now (membership_end req)"
  using assms unfolding edit_body_def
  by (auto simp: Let_def find_map_keep split: if_splits option.splits sum.splits)

lemma renew_body_snapshot:
  assumes "renew_body now sid req d = Inr d'"
  shows "\<exists>head. find (\<lambda>r. s_id r = sid) (students d') = Some head
           \<and> student_membership_history d' =
               student_membership_history d @
               [history_row (next_history_id d) sid head (id_or_null (seat_id req))
                  (firstShift (shift_ids req)) (branch_id req) (id_or_null (locker_id req))]
           \<and> s_total_fee head = Some (parseFloat_or0 (total_fee req))
           \<and> s_discount head = Some (parseFloat_or0 (discount req))
           \<and> s_cash head = Some (parseFloat_or0 (cash req))
           \<and> s_online head = Some (parseFloat_or0 (online req))
           \<and> s_membership_start head = membership_start req
           \<and> s_membership_end head = membership_end req"
  using assms unfolding renew_body_def
  by (auto simp: Let_def find_map_keep append_history_def
           split: if_splits option.splits sum.splits dest: find_SomeD)

text \<open>
  C4. A successful Edit leaves the number of history rows of every member unchanged and
  rewrites in place. The rows that carry the highest history id among the member's rows
  (ids are serial, so this is the most recently created row; one row, ids being
  distinct) become the snapshot of the member head as the edit has just written it,
  with the requested seat, first shift and locker, and keep their id and member; every
  other row is as before. The head holds the fee, paid amount and discount of the
  request, the due amount computed from them, the channel amounts as the request gave
  them, the new dates and the status. A successful Renew adds exactly one history row
  for the member and none for anybody else: the rows that existed are as before, and
  the new last row is the snapshot of the renewed head under the next serial id.
\<close>

theorem edit_overwrites_renew_appends:
  "(\<forall>d'. edit fault now sid req d = (Success, d') \<longrightarrow>
       (\<forall>m. history_count m d' = history_count m d)
     \<and> length (student_membership_history d') = length (student_membership_history d)
     \<and> (\<exists>head. find (\<lambda>r. s_id r = sid) (students d') = Some head
          \<and> s_total_fee head = Some (parseFloat_or0 (total_fee req))
          \<and> s_amount_paid head = Some (parseFloat_or0 (amount_paid req))
          \<and> s_discount head = Some (parseFloat_or0 (discount req))
          \<and> s_due_amount head =
              Some (js_sub (js_sub (parseFloat_or0 (total_fee req)) (parseFloat_or0 (discount req)))
                      (parseFloat_or0 (amount_paid req)))
          \<and> to_column (cash req) = Inr (s_cash head)
          \<and> to_column (online req) = Inr (s_online head)
          \<and> to_column (security_money req) = Inr (s_security_money head)
          \<and> s_membership_start head = membership_start req
          \<and> s_membership_end head = membership_end req
          \<and> s_status head = status_at now (membership_end req)
          \<and> (\<forall>i < length (student_membership_history d).
                student_membership_history d' ! i =
                  (if (\<exists>r \<in> set (student_membership_history d).
                          h_student_id r = sid \<and> h_id r = h_id (student_membership_history d ! i))
                      \<and> (\<forall>r \<in> set (student_membership_history d).
                          h_student_id r = sid \<longrightarrow> h_id r \<le> h_id (student_membership_history d ! i))
                   then history_row (h_id (student_membership_history d ! i))
                          (h_student_id (student_membership_history d ! i)) head
                          (id_or_null (seat_id req)) (firstShift (shift_ids req)) (s_branch_id head)
                          (id_or_null (locker_id req))
                   else student_membership_history d ! i)))
     \<and> (distinct (map h_id (student_membership_history d)) \<longrightarrow>
           length (filter (\<lambda>(old, new). new \<noteq> old)
                     (zip (student_membership_history d) (student_membership_history d'))) \<le> 1))
   \<and> (\<forall>d'. renew fault now sid req d = (Success, d') \<longrightarrow>
       history_count sid d' = history_count sid d + 1
     \<and> (\<forall>m. m \<noteq> sid \<longrightarrow> history_count m d' = history_count m d)
     \<and> take (length (student_membership_history d)) (student_membership_history d')
         = student_membership_history d
     \<and> (\<exists>head. find (\<lambda>r. s_id r = sid) (students d') = Some head
          \<and> student_membership_history d' =
              student_membership_history d @
              [history_row (next_history_id d) sid head (id_or_null (seat_id req))
                 (firstShift (shift_ids req)) (branch_id req) (id_or_null (locker_id req))]
          \<and> s_total_fee head = Some (parseFloat_or0 (total_fee req))
          \<and> s_discount head = Some (parseFloat_or0 (discount req))
          \<and> s_cash head = Some (parseFloat_or0 (cash req))
          \<and> s_online head = Some (parseFloat_or0 (online req))
          \<and> s_membership_start head = membership_start req
          \<and> s_membership_end head = membership_end req))"
proof (intro conjI allI impI)
  fix d'
  assume "renew fault now sid req d = (Success, d')"
  then have body: "renew_body now sid req d = Inr d'"
    by (simp add: renew_def transaction_success)
  from renew_body_history [OF body] obtain row where
    row: "student_membership_history d' = student_membership_history d @ [row]" "h_student_id row = sid"
    by blast
  show "history_count sid d' = history_count sid d + 1"
    by (simp add: history_count_def row)
  show "take (length (student_membership_history d)) (student_membership_history d')
         = student_membership_history d"
    by (simp add: row)
  show "\<exists>head. find (\<lambda>r. s_id r = sid) (students d') = Some head
          \<and> student_membership_history d' =
              student_membership_history d @
              [history_row (next_history_id d) sid head (id_or_null (seat_id req))
                 (firstShift (shift_ids req)) (branch_id req) (id_or_null (locker_id req))]
          \<and> s_total_fee head = Some (parseFloat_or0 (total_fee req))
          \<and> s_discount head = Some (parseFloat_or0 (discount req))
          \<and> s_cash head = Some (parseFloat_or0 (cash req))
          \<and> s_online head = Some (parseFloat_or0 (online req))
          \<and> s_membership_start head = membership_start req
          \<and> s_membership_end head = membership_end req"
    by (rule renew_body_snapshot [OF body])
  fix m assume "m \<noteq> sid"
  then show "history_count m d' = history_count m d"
    by (auto simp add: history_count_def row)
next
  fix d'
  assume "edit fault now sid req d = (Success, d')"
  then have body: "edit_body now sid req d = Inr d'"
    by (simp add: edit_def transaction_success)
  from edit_body_snapshot [OF body] obtain head where
    head: "find (\<lambda>r. s_id r = sid) (students d') = Some head"
    and h: "student_membership_history d' =
               overwrite_latest sid head (id_or_null (seat_id req)) (firstShift (shift_ids req))
                 (id_or_null (locker_id req)) (student_membership_history d)"
    and fields: "s_total_fee head = Some (parseFloat_or0 (total_fee req))"
      "s_amount_paid head = Some (parseFloat_or0 (amount_paid req))"
      "s_discount head = Some (parseFloat_or0 (discount req))"
      "s_due_amount head =
         Some (js_sub (js_sub (parseFloat_or0 (total_fee req)) (parseFloat_or0 (discount req)))
                 (parseFloat_or0 (amount_paid req)))"
      "to_column (cash req) = Inr (s_cash head)"
      "to_column (online req) = Inr (s_online head)"
      "to_column (security_money req) = Inr (s_security_money head)"
      "s_membership_start head = membership_start req"
      "s_membership_end head = membership_end req"
      "s_status head = status_at now (membership_end req)"
    by blast
  show "length (student_membership_history d') = length (student_membership_history d)"
    by (simp add: h)
  show "history_count m d' = history_count m d" for m
    unfolding history_count_def h by (rule filter_key_length) simp
  have rows: "\<forall>i < length (student_membership_history d).
                student_membership_history d' ! i =
                  (if (\<exists>r \<in> set (student_membership_history d).
                          h_student_id r = sid \<and> h_id r = h_id (student_membership_history d ! i))
                      \<and> (\<forall>r \<in> set (student_membership_history d).
                          h_student_id r = sid \<longrightarrow> h_id r \<le> h_id (student_membership_history d ! i))
                   then history_row (h_id (student_membership_history d ! i))
                          (h_student_id (student_membership_history d ! i)) head
                          (id_or_null (seat_id req)) (firstShift (shift_ids req)) (s_branch_id head)
                          (id_or_null (locker_id req))
                   else student_membership_history d ! i)"
    unfolding h by (intro allI impI overwrite_latest_nth)
  from head fields rows
  show "\<exists>head. find (\<lambda>r. s_id r = sid) (students d') = Some head
          \<and> s_total_fee head = Some (parseFloat_or0 (total_fee req))
          \<and> s_amount_paid head = Some (parseFloat_or0 (amount_paid req))
          \<and> s_discount head = Some (parseFloat_or0 (discount req))
          \<and> s_due_amount head =
              Some (js_sub (js_sub (parseFloat_or0 (total_fee req)) (parseFloat_or0 (discount req)))
                      (parseFloat_or0 (amount_paid req)))
          \<and> to_column (cash req) = Inr (s_cash head)
          \<and> to_column (online req) = Inr (s_online head)
          \<and> to_column (security_money req) = Inr (s_security_money head)
          \<and> s_membership_start head = membership_start req
          \<and> s_membership_end head = membership_end req
          \<and> s_status head = status_at now (membership_end req)
          \<and> (\<forall>i < length (student_membership_history d).
                student_membership_history d' ! i =
                  (if (\<exists>r \<in> set (student_membership_history d).
                          h_student_id r = sid \<and> h_id r = h_id (student_membership_history d ! i))
                      \<and> (\<forall>r \<in> set (student_membership_history d).
                          h_student_id r = sid \<longrightarrow> h_id r \<le> h_id (student_membership_history d ! i))
                   then history_row (h_id (student_membership_history d ! i))
                          (h_student_id (student_membership_history d ! i)) head
                          (id_or_null (seat_id req)) (firstShift (shift_ids req)) (s_branch_id head)
                          (id_or_null (locker_id req))
                   else student_membership_history d ! i))"
    by blast
  show "length (filter (\<lambda>(old, new). new \<noteq> old)
                     (zip (student_membership_history d) (student_membership_history d'))) \<le> 1"
    if dist: "distinct (map h_id (student_membership_history d))"
  proof (cases "latest_history_id sid (student_membership_history d)")
    case None
    then have "student_membership_history d' = student_membership_history d"
      by (simp add: h overwrite_latest_def)
    then show ?thesis
      by (simp add: zip_same_conv_map filter_map comp_def)
  next
    case (Some latest)
    let ?f = "\<lambda>r. history_row (h_id r) (h_student_id r) head (id_or_null (seat_id req))
                    (firstShift (shift_ids req)) (s_branch_id head) (id_or_null (locker_id req))"
    have eq: "student_membership_history d'
          = map (\<lambda>r. if h_id r = latest then ?f r else r) (student_membership_history d)"
      by (simp add: h overwrite_latest_def Some)
    have "length (filter (\<lambda>(old, new). new \<noteq> old)
                     (zip (student_membership_history d) (student_membership_history d')))
          = length (filter (\<lambda>r. (if h_id r = latest then ?f r else r) \<noteq> r) (student_membership_history d))"
      unfolding eq by (simp add: zip_map2 zip_same_conv_map filter_map comp_def)
    also have "\<dots> \<le> 1"
      using dist by (rule changed_at_most_one)
    finally show ?thesis .
  qed
qed

text \<open>
  Two members with two periods each. The edit of the first member rewrites row 3, its
  newest, and neither its first row nor the newest row of the table; the renewal adds
  row 5.
\<close>

lemmas period_defs = handler_defs value_defs registry_defs history_defs example_defs
  db_two_periods_def req_second_period_other_def req_edit_period_def req_second_period_def
  db_seat_held_def student_second_def

theorem edit_overwrites_renew_appends_witness:
  "map (\<lambda>r. (h_id r, h_student_id r, h_total_fee r, h_seat_id r, h_membership_end r))
       (student_membership_history db_two_periods)
     = [(1, 1, Some (Fin 1000), Some 1, Some 130), (2, 2, Some (Fin 1000), None, Some 130),
        (3, 1, Some (Fin 1200), None, Some 160), (4, 2, Some (Fin 1200), None, Some 160)]
   \<and> fst (edit False 125 1 req_edit_period db_two_periods) = Success
   \<and> map (\<lambda>r. (h_id r, h_student_id r, h_total_fee r, h_seat_id r, h_membership_end r))
       (student_membership_history (snd (edit False 125 1 req_edit_period db_two_periods)))
     = [(1, 1, Some (Fin 1000), Some 1, Some 130), (2, 2, Some (Fin 1000), None, Some 130),
        (3, 1, Some (Fin 1500), Some 1, Some 160), (4, 2, Some (Fin 1200), None, Some 160)]
   \<and> history_count 1 (snd (edit False 125 1 req_edit_period db_two_periods)) = 2
   \<and> distinct (map h_id (student_membership_history db_two_periods))
   \<and> length (filter (\<lambda>(old, new). new \<noteq> old)
               (zip (student_membership_history db_two_periods)
                    (student_membership_history (snd (edit False 125 1 req_edit_period db_two_periods)))))
       = 1
   \<and> fst (renew False 125 1 req_edit_period db_two_periods) = Success
   \<and> map (\<lambda>r. (h_id r, h_student_id r, h_total_fee r, h_seat_id r, h_membership_end r))
       (student_membership_history (snd (renew False 125 1 req_edit_period db_two_periods)))
     = [(1, 1, Some (Fin 1000), Some 1, Some 130), (2, 2, Some (Fin 1000), None, Some 130),
        (3, 1, Some (Fin 1200), None, Some 160), (4, 2, Some (Fin 1200), None, Some 160),
        (5, 1, Some (Fin 1500), Some 1, Some 160)]
   \<and> history_count 1 (snd (renew False 125 1 req_edit_period db_two_periods)) = 3"
proof -
  have before: "map (\<lambda>r. (h_id r, h_student_id r, h_total_fee r, h_seat_id r, h_membership_end r))
       (student_membership_history db_two_periods)
     = [(1, 1, Some (Fin 1000), Some 1, Some 130), (2, 2, Some (Fin 1000), None, Some 130),
        (3, 1, Some (Fin 1200), None, Some 160), (4, 2, Some (Fin 1200), None, Some 160)]"
    by (simp add: period_defs)
  have e: "fst (edit False 125 1 req_edit_period db_two_periods) = Success"
    by (simp add: period_defs)
  have r: "fst (renew False 125 1 req_edit_period db_two_periods) = Success"
    by (simp add: period_defs)
  have c: "history_count 1 db_two_periods = 2"
    by (simp add: history_count_def period_defs)
  have fe: "map (\<lambda>r. (h_id r, h_student_id r, h_total_fee r, h_seat_id r, h_membership_end r))
       (student_membership_history (snd (edit False 125 1 req_edit_period db_two_periods)))
     = [(1, 1, Some (Fin 1000), Some 1, Some 130), (2, 2, Some (Fin 1000), None, Some 130),
        (3, 1, Some (Fin 1500), Some 1, Some 160), (4, 2, Some (Fin 1200), None, Some 160)]"
    by (simp add: period_defs)
  have fr: "map (\<lambda>r. (h_id r, h_student_id r, h_total_fee r, h_seat_id r, h_membership_end r))
       (student_membership_history (snd (renew False 125 1 req_edit_period db_two_periods)))
     = [(1, 1, Some (Fin 1000), Some 1, Some 130), (2, 2, Some (Fin 1000), None, Some 130),
        (3, 1, Some (Fin 1200), None, Some 160), (4, 2, Some (Fin 1200), None, Some 160),
        (5, 1, Some (Fin 1500), Some 1, Some 160)]"
    by (simp add: period_defs)
  have dist: "distinct (map h_id (student_membership_history db_two_periods))"
    by (simp add: period_defs)
  have one: "length (filter (\<lambda>(old, new). new \<noteq> old)
               (zip (student_membership_history db_two_periods)
                    (student_membership_history (snd (edit False 125 1 req_edit_period db_two_periods)))))
       = 1"
    by (simp add: period_defs)
  from edit_overwrites_renew_appends [of False 125 1 req_edit_period db_two_periods]
    run_Success [OF e] run_Success [OF r]
  have "history_count 1 (snd (edit False 125 1 req_edit_period db_two_periods))
          = history_count 1 db_two_periods"
    and "history_count 1 (snd (renew False 125 1 req_edit_period db_two_periods))
          = history_count 1 db_two_periods + 1"
    by blast+
  with before e r c fe fr dist one show ?thesis by simp
qed

subsection \<open>Status route\<close>

text \<open>
  C9. A status update whose desired flag is not \<open>false\<close> writes nothing but the
  \<open>is_active\<close> flag of the member: the database afterwards is the one before with
  that flag set on the member's row when the call succeeds, and the very same database
  when it fails. Seat assignments, lockers and history rows are untouched, and so are
  the locker binding, the money fields and the dates of the member; assignments and
  locker are released only on the branch for \<open>false\<close>.
\<close>

theorem reactivation_changes_only_flag:
  assumes "is_active \<noteq> Bool False"
    and "set_status fault sid is_active d = (resp, d')"
  shows "d' = d\<lparr>students := map (\<lambda>r. if resp = Success \<and> s_id r = sid then r\<lparr>s_is_active := True\<rparr> else r)
                              (students d)\<rparr>
       \<and> seat_assignments d' = seat_assignments d
       \<and> locker d' = locker d
       \<and> student_membership_history d' = student_membership_history d"
  using assms
  by (cases is_active)
     (auto simp: set_status_def transaction_def set_status_body_def Let_def split: if_splits)

theorem reactivation_changes_only_flag_witness:
  "Bool True \<noteq> Bool False
   \<and> set_status False 1 (Bool True) (db_example\<lparr>students := [student_example\<lparr>s_is_active := False\<rparr>]\<rparr>)
       = (Success, db_example)"
proof -
  have n: "Bool True \<noteq> Bool False" by simp
  have run: "set_status False 1 (Bool True) (db_example\<lparr>students := [student_example\<lparr>s_is_active := False\<rparr>]\<rparr>)
       = (Success, db_example)"
    by (simp add: handler_defs example_defs)
  from reactivation_changes_only_flag [OF n run] n run show ?thesis by simp
qed


subsection \<open>Billing calculator in Enroll, Edit and Renew\<close>

text \<open>
  C1 asks that after every successful Enroll, Edit, Renew and payment the member head
  satisfies \<open>due = fee - discount - (cash + online)\<close>. Renew computes
  \<open>amount_paid = cash + online\<close> itself; Enroll and Edit take \<open>amount_paid\<close> from
  the request and compute the due amount from it, whatever the channel amounts are. An
  enrolment (and an edit) with fee 1000, no discount, 400 in cash and no
  \<open>amount_paid\<close> field succeeds and stores a due amount of 1000, not 600.
\<close>

theorem enroll_due_from_amount_paid_field:
  "fst (enroll False 110 req_cash_only db_empty) = Success
   \<and> map (\<lambda>r. (s_total_fee r, s_discount r, s_cash r, s_online r, s_amount_paid r, s_due_amount r))
         (students (snd (enroll False 110 req_cash_only db_empty)))
       = [(Some (Fin 1000), Some (Fin 0), Some (Fin 400), Some (Fin 0), Some (Fin 0), Some (Fin 1000))]
   \<and> fst (edit False 110 1 req_cash_only db_example) = Success
   \<and> map (\<lambda>r. (s_total_fee r, s_discount r, s_cash r, s_online r, s_amount_paid r, s_due_amount r))
         (students (snd (edit False 110 1 req_cash_only db_example)))
       = [(Some (Fin 1000), Some (Fin 0), Some (Fin 400), Some (Fin 0), Some (Fin 0), Some (Fin 1000))]"
  by (simp add: handler_defs value_defs registry_defs history_defs example_defs
        req_cash_only_def db_empty_def)

text \<open>
  C7 asks that Enroll, Edit and Renew each refuse a negative or non-numeric fee,
  discount, cash or online amount with \<open>ValidationError\<close> before any write. Enroll
  does. Edit and Renew parse the same fields and check none of them: an
  edit with fee \<open>-50\<close> succeeds and stores it, and so does a renewal with cash \<open>-5\<close>
  and a discount that is not a number.
\<close>

theorem edit_and_renew_accept_negative_amounts:
  "fst (edit False 110 1 (req_second_period\<lparr>total_fee := Number (- 50)\<rparr>) db_example) = Success
   \<and> map s_total_fee (students (snd (edit False 110 1 (req_second_period\<lparr>total_fee := Number (- 50)\<rparr>) db_example)))
       = [Some (Fin (- 50))]
   \<and> fst (renew False 110 1 (req_second_period\<lparr>cash := Number (- 5), discount := Junk\<rparr>) db_example) = Success
   \<and> map (\<lambda>r. (s_cash r, s_discount r)) (students (snd (renew False 110 1 (req_second_period\<lparr>cash := Number (- 5), discount := Junk\<rparr>) db_example)))
       = [(Some (Fin (- 5)), Some NaN)]"
  by (simp add: handler_defs value_defs registry_defs history_defs example_defs
        req_second_period_def)

subsection \<open>Seat reservation in Edit\<close>

text \<open>
  C6 asks that an Edit requesting a seat and shift that another member holds fail with
  \<open>Conflict\<close> and change nothing. Edit deletes the member's assignments and inserts
  the requested ones without asking whether somebody else holds the seat in that
  shift. With seat 1 in shift 1
  held by member 1, the edit of member 2 that requests them succeeds and leaves two
  assignments for the pair; the same request as a renewal is refused with \<open>Conflict\<close>.
\<close>

theorem edit_double_books_seat:
  "seat_taken_by_other (Some 1) 1 2 (seat_assignments db_seat_held)
   \<and> fst (edit False 110 2 req_same_seat db_seat_held) = Success
   \<and> map (\<lambda>a. (a_seat_id a, a_shift_id a, a_student_id a))
         (seat_assignments (snd (edit False 110 2 req_same_seat db_seat_held)))
       = [(Some 1, 1, 1), (Some 1, 1, 2)]
   \<and> fst (renew False 110 2 req_same_seat db_seat_held) = Failure Conflict"
  by (simp add: handler_defs value_defs registry_defs history_defs example_defs
        req_same_seat_def db_seat_held_def student_second_def)

subsection \<open>Delete\<close>

text \<open>
  C8 asks that the cascade of Delete be one all-or-nothing transaction. Delete runs
  outside a transaction. When the storage layer fails at the last statement, the call
  is answered with an error, the member row is still there, and the member's seat
  assignments and history rows are gone.
\<close>

theorem delete_leaves_partial_removal:
  "delete_student (Some 3) 1 db_seat_held
     = (Failure Internal,
        db_seat_held\<lparr>seat_assignments := [],
                     student_membership_history := [history_row 2 2 student_second None None (Some 1) None]\<rparr>)
   \<and> map s_id (students (snd (delete_student (Some 3) 1 db_seat_held))) = [1, 2]"
  by (simp add: delete_student_def registry_defs db_seat_held_def example_defs student_second_def Let_def)


subsection \<open>Locker invariant\<close>

text \<open>
  C5 asks that every lifecycle operation preserve the locker invariant: the flag of a
  locker is set if and only if exactly one member refers to it, and that member is the
  one the locker points back to. A member holds locker 1. Delete is interrupted by a
  storage failure at its third statement: the locker has been released by the second
  statement, the member row is still there and still refers to the locker. The
  invariant held before the call and does not hold after it.
\<close>

theorem interrupted_delete_breaks_locker_flag:
  "locker_flag_inv db_locker_held
   \<and> locker_inv db_locker_held
   \<and> fst (delete_student (Some 2) 1 db_locker_held) = Failure Internal
   \<and> locker (snd (delete_student (Some 2) 1 db_locker_held))
       = [\<lparr>l_id = 1, l_is_assigned = False, l_student_id = None\<rparr>]
   \<and> map s_locker_id (students (snd (delete_student (Some 2) 1 db_locker_held))) = [Some 1]
   \<and> \<not> locker_flag_inv (snd (delete_student (Some 2) 1 db_locker_held))"
  by (simp add: delete_student_def registry_defs db_locker_held_def example_defs Let_def
        locker_flag_inv_def locker_inv_def referencing_def)

text \<open>
  Read off the rows: after the interrupted call one member row refers to locker 1 and
  the locker's flag is false.
\<close>

theorem interrupted_delete_breaks_locker_flag_witness:
  "length (referencing 1 (students (snd (delete_student (Some 2) 1 db_locker_held)))) = 1
   \<and> map l_is_assigned (locker (snd (delete_student (Some 2) 1 db_locker_held))) = [False]
   \<and> \<not> locker_flag_inv (snd (delete_student (Some 2) 1 db_locker_held))"
proof -
  have rows: "length (referencing 1 (students (snd (delete_student (Some 2) 1 db_locker_held)))) = 1"
    by (simp add: delete_student_def registry_defs db_locker_held_def example_defs Let_def
          referencing_def)
  from interrupted_delete_breaks_locker_flag rows show ?thesis by simp
qed

text \<open>
  What does hold: the inductive form of the invariant implies the stated one, and it is
  preserved by Enroll, Edit, Renew and the status route whatever their outcome, and by
  a Delete that no storage failure interrupts.
\<close>

lemma length_filter_one:
  assumes "distinct (map key xs)" "x \<in> set xs" "P x"
    "\<And>y. y \<in> set xs \<Longrightarrow> P y \<Longrightarrow> key y = key x"
  shows "length (filter P xs) = 1"
proof -
  from assms(1) have d: "distinct xs" and inj: "inj_on key (set xs)"
    by (simp_all add: distinct_map)
  have "{y. P y} \<inter> set xs = {x}"
  proof (intro equalityI subsetI)
    fix y assume "y \<in> {y. P y} \<inter> set xs"
    then have "y \<in> set xs" "P y" by simp_all
    with assms(4) have "key y = key x" by blast
    with inj \<open>y \<in> set xs\<close> assms(2) have "y = x" unfolding inj_on_def by blast
    then show "y \<in> {x}" by simp
  next
    fix y assume "y \<in> {x}"
    with assms(2,3) show "y \<in> {y. P y} \<inter> set xs" by simp
  qed
  with distinct_length_filter [OF d, of P] show ?thesis by simp
qed

lemma locker_inv_flag: "locker_inv d \<Longrightarrow> locker_flag_inv d"
  unfolding locker_flag_inv_def
proof (intro ballI conjI impI)
  fix l assume inv: "locker_inv d" and l: "l \<in> set (locker d)"
  let ?P = "\<lambda>s. s_locker_id s = Some (l_id l)"
  have A: "\<And>s. s \<in> set (students d) \<Longrightarrow> ?P s \<Longrightarrow> l_is_assigned l \<and> l_student_id l = Some (s_id s)"
    using inv l unfolding locker_inv_def by blast
  have dist: "distinct (map s_id (students d))" using inv unfolding locker_inv_def by blast
  show "l_is_assigned l \<longleftrightarrow> length (referencing (l_id l) (students d)) = 1"
  proof
    assume "l_is_assigned l"
    then obtain s where s: "s \<in> set (students d)" "?P s"
      using inv l unfolding locker_inv_def by blast
    have "length (filter ?P (students d)) = 1"
    proof (rule length_filter_one [where key = s_id and P = ?P, OF dist s])
      fix y assume "y \<in> set (students d)" "?P y"
      with A[of y] A[OF s] show "s_id y = s_id s" by simp
    qed
    then show "length (referencing (l_id l) (students d)) = 1" by (simp add: referencing_def)
  next
    assume "length (referencing (l_id l) (students d)) = 1"
    then have "filter ?P (students d) \<noteq> []" by (auto simp: referencing_def)
    then obtain s where "s \<in> set (students d)" "?P s" by (auto simp: filter_empty_conv)
    with A show "l_is_assigned l" by blast
  qed
  fix s assume "l_is_assigned l" "s \<in> set (referencing (l_id l) (students d))"
  with A show "l_student_id l = Some (s_id s)" by (simp add: referencing_def)
qed

lemma locker_invI:
  assumes "distinct (map s_id (students d))"
    "\<And>s. s \<in> set (students d) \<Longrightarrow> s_id s < next_student_id d"
    "\<And>l. l \<in> set (locker d) \<Longrightarrow> l_id l \<noteq> 0"
    "\<And>l s. l \<in> set (locker d) \<Longrightarrow> s \<in> set (students d) \<Longrightarrow> s_locker_id s = Some (l_id l)
       \<Longrightarrow> l_is_assigned l \<and> l_student_id l = Some (s_id s)"
    "\<And>l. l \<in> set (locker d) \<Longrightarrow> l_is_assigned l
       \<Longrightarrow> \<exists>s \<in> set (students d). s_locker_id s = Some (l_id l)"
  shows "locker_inv d"
  using assms unfolding locker_inv_def by blast

lemma locker_invD:
  assumes "locker_inv d"
  shows "distinct (map s_id (students d))"
    "\<And>s. s \<in> set (students d) \<Longrightarrow> s_id s < next_student_id d"
    "\<And>l. l \<in> set (locker d) \<Longrightarrow> l_id l \<noteq> 0"
    "\<And>l s. l \<in> set (locker d) \<Longrightarrow> s \<in> set (students d) \<Longrightarrow> s_locker_id s = Some (l_id l)
       \<Longrightarrow> l_is_assigned l \<and> l_student_id l = Some (s_id s)"
    "\<And>l. l \<in> set (locker d) \<Longrightarrow> l_is_assigned l
       \<Longrightarrow> \<exists>s \<in> set (students d). s_locker_id s = Some (l_id l)"
  using assms unfolding locker_inv_def by blast+

lemma map_keep_ids:
  assumes "\<And>r. s_id (f r) = s_id r"
  shows "map (s_id \<circ> (\<lambda>r. if P r then f r else r)) rows = map s_id rows"
  using assms by (induction rows) auto

lemma deactivate_inv:
  assumes inv: "locker_inv d"
  shows "locker_inv (d\<lparr>students :=
                        map (\<lambda>r. if s_id r = sid then r\<lparr>s_is_active := False, s_locker_id := None\<rparr> else r) (students d),
                      seat_assignments := xs,
                      locker := release_lockers_of sid (locker d)\<rparr>)"
proof (rule locker_invI)
  note D = locker_invD [OF inv]
  let ?d = "d\<lparr>students :=
                        map (\<lambda>r. if s_id r = sid then r\<lparr>s_is_active := False, s_locker_id := None\<rparr> else r) (students d),
                      seat_assignments := xs,
                      locker := release_lockers_of sid (locker d)\<rparr>"
  show "distinct (map s_id (students ?d))"
    using D(1) by (simp add: map_keep_ids)
  show "s_id s < next_student_id ?d" if "s \<in> set (students ?d)" for s
    using that D(2) by auto
  show "l_id l \<noteq> 0" if "l \<in> set (locker ?d)" for l
    using that D(3) by (auto simp: release_lockers_of_def)
  show "l_is_assigned l \<and> l_student_id l = Some (s_id s)"
    if "l \<in> set (locker ?d)" "s \<in> set (students ?d)" "s_locker_id s = Some (l_id l)" for l s
    using that D(4) by (auto simp: release_lockers_of_def split: if_splits)
  show "\<exists>s \<in> set (students ?d). s_locker_id s = Some (l_id l)"
    if "l \<in> set (locker ?d)" "l_is_assigned l" for l
  proof -
    from that obtain l0 where l0: "l0 \<in> set (locker d)" "l_student_id l0 \<noteq> Some sid" "l = l0"
      by (auto simp: release_lockers_of_def split: if_splits)
    with that D(5)[of l0] obtain s where s: "s \<in> set (students d)" "s_locker_id s = Some (l_id l0)"
      by auto
    with D(4)[OF l0(1) s] l0 have "s_id s \<noteq> sid" by auto
    with s l0 show ?thesis by (auto intro!: bexI[of _ s])
  qed
qed

lemma distinct_key_eq:
  assumes "distinct (map key xs)" "x \<in> set xs" "y \<in> set xs" "key x = key y"
  shows "x = y"
  using assms unfolding distinct_map inj_on_def by blast

lemma locker_check_None:
  assumes "locker_check sid (Some n) rows = None"
  shows "\<exists>l0 \<in> set rows. l_id l0 = n \<and> (l_is_assigned l0 \<longrightarrow> l_student_id l0 = Some sid)"
  using assms unfolding locker_check_def
  by (auto split: option.splits if_splits dest!: find_SomeD)

lemma enroll_locker_check_None:
  assumes "enroll_locker_check (Some n) rows = None"
  shows "\<exists>l0 \<in> set rows. l_id l0 = n \<and> \<not> l_is_assigned l0"
  using assms unfolding enroll_locker_check_def
  by (auto split: option.splits if_splits dest!: find_SomeD)

lemma in_assign_locker:
  assumes "l' \<in> set (assign_locker lk sid rows)"
  shows "\<exists>l \<in> set rows. l_id l' = l_id l
           \<and> (lk = Some (l_id l) \<longrightarrow> l_is_assigned l' \<and> l_student_id l' = Some sid)
           \<and> (lk \<noteq> Some (l_id l) \<longrightarrow> l' = l)"
  using assms unfolding assign_locker_def
  by (cases lk) (auto split: if_splits)

lemma student_update_inv:
  assumes inv: "locker_inv d"
    and keep: "\<And>r. s_id (f r) = s_id r" "\<And>r. s_locker_id (f r) = s_locker_id r"
  shows "locker_inv (d\<lparr>students := map (\<lambda>r. if P r then f r else r) (students d)\<rparr>)"
proof (rule locker_invI)
  note D = locker_invD [OF inv]
  let ?d = "d\<lparr>students := map (\<lambda>r. if P r then f r else r) (students d)\<rparr>"
  show "distinct (map s_id (students ?d))"
    using D(1) keep by (simp add: map_keep_ids)
  show "s_id s < next_student_id ?d" if "s \<in> set (students ?d)" for s
    using that D(2) keep by auto
  show "l_id l \<noteq> 0" if "l \<in> set (locker ?d)" for l
    using that D(3) by auto
  show "l_is_assigned l \<and> l_student_id l = Some (s_id s)"
    if "l \<in> set (locker ?d)" "s \<in> set (students ?d)" "s_locker_id s = Some (l_id l)" for l s
    using that D(4) keep by (auto split: if_splits)
  show "\<exists>s \<in> set (students ?d). s_locker_id s = Some (l_id l)"
    if "l \<in> set (locker ?d)" "l_is_assigned l" for l
  proof -
    from that D(5)[of l] obtain s where s: "s \<in> set (students d)" "s_locker_id s = Some (l_id l)"
      by auto
    let ?s = "if P s then f s else s"
    have "?s \<in> set (students ?d)" using s(1) by auto
    moreover have "s_locker_id ?s = Some (l_id l)" using s(2) keep by simp
    ultimately show ?thesis by blast
  qed
qed

lemma rebind_inv:
  assumes inv: "locker_inv d"
    and ex: "\<exists>s \<in> set (students d). s_id s = sid"
    and keep: "\<And>r. s_id (f r) = s_id r" "\<And>r. s_locker_id (f r) = lk"
    and check: "locker_check sid lk (locker d) = None"
    and R1: "\<And>l s. l \<in> set (locker d) \<Longrightarrow> s \<in> set (students d) \<Longrightarrow> s_id s = sid
               \<Longrightarrow> s_locker_id s = Some (l_id l) \<Longrightarrow> R l"
    and R2: "\<And>l. l \<in> set (locker d) \<Longrightarrow> R l \<Longrightarrow> l_is_assigned l \<Longrightarrow> l_student_id l = Some sid"
    and st: "students d' = map (\<lambda>r. if s_id r = sid then f r else r) (students d)"
    and lo: "locker d' = assign_locker lk sid
               (map (\<lambda>l. if R l then l\<lparr>l_is_assigned := False, l_student_id := None\<rparr> else l) (locker d))"
    and nx: "next_student_id d' = next_student_id d"
  shows "locker_inv d'"
proof (rule locker_invI)
  note D = locker_invD [OF inv]
  let ?rel = "\<lambda>l. if R l then l\<lparr>l_is_assigned := False, l_student_id := None\<rparr> else l"
  have inL: "\<exists>l \<in> set (locker d). l_id l' = l_id l
               \<and> (lk = Some (l_id l) \<longrightarrow> l_is_assigned l' \<and> l_student_id l' = Some sid)
               \<and> (lk \<noteq> Some (l_id l) \<longrightarrow> l' = ?rel l)"
    if "l' \<in> set (locker d')" for l'
  proof -
    from that have "l' \<in> set (assign_locker lk sid (map ?rel (locker d)))" by (simp add: lo)
    from in_assign_locker [OF this]
    obtain m where m: "m \<in> set (map ?rel (locker d))" "l_id l' = l_id m"
      "lk = Some (l_id m) \<longrightarrow> l_is_assigned l' \<and> l_student_id l' = Some sid"
      "lk \<noteq> Some (l_id m) \<longrightarrow> l' = m"
      by blast
    from m(1) obtain l where l: "l \<in> set (locker d)" "m = ?rel l" by auto
    then have idm: "l_id m = l_id l" by simp
    have f1: "l_id l' = l_id l" using m(2) idm by simp
    have f2: "lk = Some (l_id l) \<longrightarrow> l_is_assigned l' \<and> l_student_id l' = Some sid"
      using m(3) idm by simp
    have f3: "lk \<noteq> Some (l_id l) \<longrightarrow> l' = ?rel l"
    proof
      assume "lk \<noteq> Some (l_id l)"
      with idm have "lk \<noteq> Some (l_id m)" by simp
      with m(4) have "l' = m" by blast
      with l(2) show "l' = ?rel l" by blast
    qed
    from l(1) f1 f2 f3 show ?thesis by blast
  qed
  have inS: "\<exists>s \<in> set (students d). s' = (if s_id s = sid then f s else s)"
    if "s' \<in> set (students d')" for s'
    using that by (auto simp: st)
  show "distinct (map s_id (students d'))"
    using D(1) keep by (simp add: st map_keep_ids)
  show "s_id s' < next_student_id d'" if "s' \<in> set (students d')" for s'
  proof -
    from inS[OF that] obtain s where s: "s \<in> set (students d)"
      "s' = (if s_id s = sid then f s else s)" by blast
    from s(2) keep(1) have "s_id s' = s_id s" by simp
    with D(2)[OF s(1)] show ?thesis by (simp add: nx)
  qed
  show "l_id l' \<noteq> 0" if "l' \<in> set (locker d')" for l'
  proof -
    from inL[OF that] obtain l where "l \<in> set (locker d)" "l_id l' = l_id l" by blast
    with D(3)[of l] show ?thesis by simp
  qed
  show "l_is_assigned l' \<and> l_student_id l' = Some (s_id s')"
    if l': "l' \<in> set (locker d')" and s': "s' \<in> set (students d')"
      and ref: "s_locker_id s' = Some (l_id l')" for l' s'
  proof -
    from inL[OF l'] obtain l where l: "l \<in> set (locker d)" "l_id l' = l_id l"
      "lk = Some (l_id l) \<longrightarrow> l_is_assigned l' \<and> l_student_id l' = Some sid"
      "lk \<noteq> Some (l_id l) \<longrightarrow> l' = ?rel l" by blast
    from inS[OF s'] obtain s where s: "s \<in> set (students d)" "s' = (if s_id s = sid then f s else s)"
      by blast
    show ?thesis
    proof (cases "s_id s = sid")
      case True
      with s keep have "s_locker_id s' = lk" "s_id s' = sid" by simp_all
      with ref l show ?thesis by simp
    next
      case False
      with s have eq: "s' = s" by simp
      with ref l have r: "s_locker_id s = Some (l_id l)" by simp
      from D(4)[OF l(1) s(1) r] have a: "l_is_assigned l" "l_student_id l = Some (s_id s)" by simp_all
      have notR: "\<not> R l" using R2[OF l(1)] a False by auto
      have "lk \<noteq> Some (l_id l)"
      proof
        assume lk: "lk = Some (l_id l)"
        with check have "locker_check sid (Some (l_id l)) (locker d) = None" by simp
        from locker_check_None [OF this]
        obtain l0 where l0: "l0 \<in> set (locker d)" "l_id l0 = l_id l"
          "l_is_assigned l0 \<longrightarrow> l_student_id l0 = Some sid"
          by blast
        from r l0 have "s_locker_id s = Some (l_id l0)" by simp
        from D(4)[OF l0(1) s(1) this] l0(3) False show False by simp
      qed
      with l notR have "l' = l" by simp
      with a eq show ?thesis by simp
    qed
  qed
  show "\<exists>s \<in> set (students d'). s_locker_id s = Some (l_id l')"
    if l': "l' \<in> set (locker d')" and asg: "l_is_assigned l'" for l'
  proof -
    from inL[OF l'] obtain l where l: "l \<in> set (locker d)" "l_id l' = l_id l"
      "lk \<noteq> Some (l_id l) \<longrightarrow> l' = ?rel l" by blast
    show ?thesis
    proof (cases "lk = Some (l_id l)")
      case True
      from ex obtain p where p: "p \<in> set (students d)" "s_id p = sid" by blast
      from p(1) have "(\<lambda>r. if s_id r = sid then f r else r) p
                        \<in> (\<lambda>r. if s_id r = sid then f r else r) ` set (students d)"
        by (rule imageI)
      with p(2) have "f p \<in> set (students d')" by (simp add: st)
      moreover have "s_locker_id (f p) = Some (l_id l')" using keep True l by simp
      ultimately show ?thesis by blast
    next
      case False
      with l have eq: "l' = ?rel l" by simp
      with asg have notR: "\<not> R l" and a: "l_is_assigned l" by (auto split: if_splits)
      from D(5)[OF l(1) a] obtain s where s: "s \<in> set (students d)" "s_locker_id s = Some (l_id l)"
        by blast
      have ne: "s_id s \<noteq> sid" using R1[OF l(1) s(1) _ s(2)] notR by blast
      from s(1) have "(\<lambda>r. if s_id r = sid then f r else r) s
                        \<in> (\<lambda>r. if s_id r = sid then f r else r) ` set (students d)"
        by (rule imageI)
      with ne have "s \<in> set (students d')" by (simp add: st)
      with s(2) l show ?thesis by auto
    qed
  qed
qed

lemma append_history_frame [simp]:
  "students (append_history st seat shift br lk d) = students d"
  "locker (append_history st seat shift br lk d) = locker d"
  "next_student_id (append_history st seat shift br lk d) = next_student_id d"
  "seat_assignments (append_history st seat shift br lk d) = seat_assignments d"
  by (simp_all add: append_history_def)

lemma enroll_inv:
  assumes inv: "locker_inv d"
    and check: "enroll_locker_check lk (locker d) = None"
    and new: "s_id new = next_student_id d" "s_locker_id new = lk"
    and st: "students d' = students d @ [new]"
    and lo: "locker d' = assign_locker lk (s_id new) (locker d)"
    and nx: "next_student_id d' = Suc (next_student_id d)"
  shows "locker_inv d'"
proof (rule locker_invI)
  note D = locker_invD [OF inv]
  have inL: "\<exists>l \<in> set (locker d). l_id l' = l_id l
               \<and> (lk = Some (l_id l) \<longrightarrow> l_is_assigned l' \<and> l_student_id l' = Some (s_id new))
               \<and> (lk \<noteq> Some (l_id l) \<longrightarrow> l' = l)"
    if "l' \<in> set (locker d')" for l'
    using that in_assign_locker [of l' lk "s_id new" "locker d"] by (simp add: lo)
  have fresh: "s_id s \<noteq> s_id new" if "s \<in> set (students d)" for s
    using D(2)[OF that] new(1) by simp
  have "s_id new \<notin> set (map s_id (students d))"
    using fresh by fastforce
  then show "distinct (map s_id (students d'))"
    using D(1) by (simp add: st)
  show "s_id s < next_student_id d'" if "s \<in> set (students d')" for s
    using that D(2) new(1) by (auto simp: st nx less_Suc_eq)
  show "l_id l' \<noteq> 0" if "l' \<in> set (locker d')" for l'
  proof -
    from inL[OF that] obtain l where "l \<in> set (locker d)" "l_id l' = l_id l" by blast
    with D(3)[of l] show ?thesis by simp
  qed
  show "l_is_assigned l' \<and> l_student_id l' = Some (s_id s')"
    if l': "l' \<in> set (locker d')" and s': "s' \<in> set (students d')"
      and ref: "s_locker_id s' = Some (l_id l')" for l' s'
  proof -
    from inL[OF l'] obtain l where l: "l \<in> set (locker d)" "l_id l' = l_id l"
      "lk = Some (l_id l) \<longrightarrow> l_is_assigned l' \<and> l_student_id l' = Some (s_id new)"
      "lk \<noteq> Some (l_id l) \<longrightarrow> l' = l" by blast
    from s' have "s' = new \<or> s' \<in> set (students d)" by (auto simp: st)
    then show ?thesis
    proof
      assume "s' = new"
      with ref new(2) l show ?thesis by simp
    next
      assume old: "s' \<in> set (students d)"
      from ref l have r: "s_locker_id s' = Some (l_id l)" by simp
      from D(4)[OF l(1) old r] have a: "l_is_assigned l" "l_student_id l = Some (s_id s')" by simp_all
      have "lk \<noteq> Some (l_id l)"
      proof
        assume "lk = Some (l_id l)"
        with check have "enroll_locker_check (Some (l_id l)) (locker d) = None" by simp
        from enroll_locker_check_None [OF this]
        obtain l0 where l0: "l0 \<in> set (locker d)" "l_id l0 = l_id l" "\<not> l_is_assigned l0" by blast
        from r l0 have "s_locker_id s' = Some (l_id l0)" by simp
        from D(4)[OF l0(1) old this] l0(3) show False by simp
      qed
      with l have "l' = l" by simp
      with a show ?thesis by simp
    qed
  qed
  show "\<exists>s \<in> set (students d'). s_locker_id s = Some (l_id l')"
    if l': "l' \<in> set (locker d')" and asg: "l_is_assigned l'" for l'
  proof -
    from inL[OF l'] obtain l where l: "l \<in> set (locker d)" "l_id l' = l_id l"
      "lk \<noteq> Some (l_id l) \<longrightarrow> l' = l" by blast
    show ?thesis
    proof (cases "lk = Some (l_id l)")
      case True
      have "new \<in> set (students d')" by (simp add: st)
      moreover have "s_locker_id new = Some (l_id l')" using True new(2) l by simp
      ultimately show ?thesis by blast
    next
      case False
      with l asg have "l_is_assigned l" by simp
      from D(5)[OF l(1) this] obtain s where "s \<in> set (students d)" "s_locker_id s = Some (l_id l)"
        by blast
      then have "s \<in> set (students d')" "s_locker_id s = Some (l_id l')"
        using l by (simp_all add: st)
      then show ?thesis by blast
    qed
  qed
qed

lemma delete_inv:
  assumes inv: "locker_inv d"
    and st: "students d' = filter (\<lambda>r. s_id r \<noteq> sid) (students d)"
    and lo: "locker d' = release_lockers_of sid (locker d)"
    and nx: "next_student_id d' = next_student_id d"
  shows "locker_inv d'"
proof (rule locker_invI)
  note D = locker_invD [OF inv]
  have inL: "\<exists>l \<in> set (locker d). l_id l' = l_id l
               \<and> (l_student_id l = Some sid \<longrightarrow> \<not> l_is_assigned l')
               \<and> (l_student_id l \<noteq> Some sid \<longrightarrow> l' = l)"
    if "l' \<in> set (locker d')" for l'
    using that by (auto simp: lo release_lockers_of_def)
  show "distinct (map s_id (students d'))"
    using D(1) by (simp add: st distinct_map_filter)
  show "s_id s < next_student_id d'" if "s \<in> set (students d')" for s
    using that D(2) by (simp add: st nx)
  show "l_id l' \<noteq> 0" if "l' \<in> set (locker d')" for l'
  proof -
    from inL[OF that] obtain l where "l \<in> set (locker d)" "l_id l' = l_id l" by blast
    with D(3)[of l] show ?thesis by simp
  qed
  show "l_is_assigned l' \<and> l_student_id l' = Some (s_id s)"
    if l': "l' \<in> set (locker d')" and s: "s \<in> set (students d')"
      and ref: "s_locker_id s = Some (l_id l')" for l' s
  proof -
    from inL[OF l'] obtain l where l: "l \<in> set (locker d)" "l_id l' = l_id l"
      "l_student_id l \<noteq> Some sid \<longrightarrow> l' = l" by blast
    from s have s0: "s \<in> set (students d)" "s_id s \<noteq> sid" by (simp_all add: st)
    from ref l have "s_locker_id s = Some (l_id l)" by simp
    from D(4)[OF l(1) s0(1) this] have a: "l_is_assigned l" "l_student_id l = Some (s_id s)" by simp_all
    with s0(2) l have "l' = l" by simp
    with a show ?thesis by simp
  qed
  show "\<exists>s \<in> set (students d'). s_locker_id s = Some (l_id l')"
    if l': "l' \<in> set (locker d')" and asg: "l_is_assigned l'" for l'
  proof -
    from inL[OF l'] obtain l where l: "l \<in> set (locker d)" "l_id l' = l_id l"
      "l_student_id l = Some sid \<longrightarrow> \<not> l_is_assigned l'"
      "l_student_id l \<noteq> Some sid \<longrightarrow> l' = l" by blast
    with asg have ne: "l_student_id l \<noteq> Some sid" and eq: "l' = l" by blast+
    with asg have "l_is_assigned l" by simp
    from D(5)[OF l(1) this] obtain s where s: "s \<in> set (students d)" "s_locker_id s = Some (l_id l)"
      by blast
    from D(4)[OF l(1) s] ne have "s_id s \<noteq> sid" by auto
    with s have "s \<in> set (students d')" "s_locker_id s = Some (l_id l')"
      using l by (simp_all add: st)
    then show ?thesis by blast
  qed
qed

lemma enroll_body_effect:
  assumes "enroll_body now req d = Inr d'"
  shows "\<exists>new. s_id new = next_student_id d \<and> s_locker_id new = id_or_null (locker_id req)
           \<and> students d' = students d @ [new]
           \<and> locker d' = assign_locker (id_or_null (locker_id req)) (s_id new) (locker d)
           \<and> next_student_id d' = Suc (next_student_id d)
           \<and> enroll_locker_check (id_or_null (locker_id req)) (locker d) = None"
  using assms unfolding enroll_body_def
  by (auto simp: Let_def split: if_splits option.splits)

lemma release_previous_as_map:
  "release_previous p rows =
     map (\<lambda>l. if p = Some (l_id l) \<and> l_id l \<noteq> 0
               then l\<lparr>l_is_assigned := False, l_student_id := None\<rparr> else l) rows"
  unfolding release_previous_def
  by (cases p) (auto intro!: map_idI[symmetric])

lemma edit_body_effect:
  assumes "edit_body now sid req d = Inr d'"
  shows "\<exists>prev f. students d' = map (\<lambda>r. if s_id r = sid then f r else r) (students d)
           \<and> find (\<lambda>r. s_id r = sid) (students d) = Some prev
           \<and> (\<forall>r. s_id (f r) = s_id r) \<and> (\<forall>r. s_locker_id (f r) = id_or_null (locker_id req))
           \<and> locker d' = assign_locker (id_or_null (locker_id req)) sid
                            (release_previous (s_locker_id prev) (locker d))
           \<and> next_student_id d' = next_student_id d
           \<and> locker_check sid (id_or_null (locker_id req)) (locker d) = None"
  using assms unfolding edit_body_def
  by (auto simp: Let_def split: if_splits option.splits sum.splits intro!: exI)

lemma renew_body_effect:
  assumes "renew_body now sid req d = Inr d'"
  shows "\<exists>f. students d' = map (\<lambda>r. if s_id r = sid then f r else r) (students d)
           \<and> (\<exists>s \<in> set (students d). s_id s = sid)
           \<and> (\<forall>r. s_id (f r) = s_id r) \<and> (\<forall>r. s_locker_id (f r) = id_or_null (locker_id req))
           \<and> locker d' = assign_locker (id_or_null (locker_id req)) sid
                            (release_lockers_of sid (locker d))
           \<and> next_student_id d' = next_student_id d
           \<and> locker_check sid (id_or_null (locker_id req)) (locker d) = None"
  using assms unfolding renew_body_def
  by (auto simp: Let_def find_map_keep split: if_splits option.splits sum.splits
           dest!: find_SomeD intro!: exI)

lemma transaction_cases:
  assumes "locker_inv d" "\<And>d'. body d = Inr d' \<Longrightarrow> locker_inv d'"
  shows "locker_inv (snd (transaction fault body d))"
  using assms by (auto simp: transaction_def split: sum.splits)

lemma enroll_preserves_locker_inv:
  assumes inv: "locker_inv d"
  shows "locker_inv (snd (enroll fault now req d))"
  unfolding enroll_def
proof (rule transaction_cases [OF inv])
  fix d' assume "enroll_body now req d = Inr d'"
  from enroll_body_effect [OF this] obtain new where
    "s_id new = next_student_id d" "s_locker_id new = id_or_null (locker_id req)"
    "students d' = students d @ [new]"
    "locker d' = assign_locker (id_or_null (locker_id req)) (s_id new) (locker d)"
    "next_student_id d' = Suc (next_student_id d)"
    "enroll_locker_check (id_or_null (locker_id req)) (locker d) = None"
    by blast
  with inv show "locker_inv d'" by (intro enroll_inv [of d _ new d'])
qed

lemma edit_preserves_locker_inv:
  assumes inv: "locker_inv d"
  shows "locker_inv (snd (edit fault now sid req d))"
  unfolding edit_def
proof (rule transaction_cases [OF inv])
  note D = locker_invD [OF inv]
  fix d' assume "edit_body now sid req d = Inr d'"
  from edit_body_effect [OF this] obtain prev f where e:
    "students d' = map (\<lambda>r. if s_id r = sid then f r else r) (students d)"
    "find (\<lambda>r. s_id r = sid) (students d) = Some prev"
    "\<And>r. s_id (f r) = s_id r" "\<And>r. s_locker_id (f r) = id_or_null (locker_id req)"
    "locker d' = assign_locker (id_or_null (locker_id req)) sid
                   (release_previous (s_locker_id prev) (locker d))"
    "next_student_id d' = next_student_id d"
    "locker_check sid (id_or_null (locker_id req)) (locker d) = None"
    by blast
  from find_SomeD [OF e(2)] have prev: "prev \<in> set (students d)" "s_id prev = sid" by simp_all
  let ?R = "\<lambda>l. s_locker_id prev = Some (l_id l) \<and> l_id l \<noteq> 0"
  show "locker_inv d'"
  proof (rule rebind_inv [where R = ?R and f = f and sid = sid, OF inv _ e(3) e(4) e(7) _ _ e(1) _ e(6)])
    show "\<exists>s \<in> set (students d). s_id s = sid" using prev by blast
    show "?R l" if "l \<in> set (locker d)" "s \<in> set (students d)" "s_id s = sid"
      "s_locker_id s = Some (l_id l)" for l s
    proof -
      from that(3) prev(2) have "s_id s = s_id prev" by simp
      from distinct_key_eq [OF D(1) that(2) prev(1) this] have "s = prev" .
      with that(4) D(3)[OF that(1)] show ?thesis by simp
    qed
    show "l_student_id l = Some sid" if "l \<in> set (locker d)" "?R l" "l_is_assigned l" for l
      using D(4)[OF that(1) prev(1)] that(2) prev(2) by simp
    show "locker d' = assign_locker (id_or_null (locker_id req)) sid
            (map (\<lambda>l. if ?R l then l\<lparr>l_is_assigned := False, l_student_id := None\<rparr> else l) (locker d))"
      by (simp only: e(5) release_previous_as_map)
  qed
qed

lemma renew_preserves_locker_inv:
  assumes inv: "locker_inv d"
  shows "locker_inv (snd (renew fault now sid req d))"
  unfolding renew_def
proof (rule transaction_cases [OF inv])
  note D = locker_invD [OF inv]
  fix d' assume "renew_body now sid req d = Inr d'"
  from renew_body_effect [OF this] obtain f where e:
    "students d' = map (\<lambda>r. if s_id r = sid then f r else r) (students d)"
    "\<exists>s \<in> set (students d). s_id s = sid"
    "\<And>r. s_id (f r) = s_id r" "\<And>r. s_locker_id (f r) = id_or_null (locker_id req)"
    "locker d' = assign_locker (id_or_null (locker_id req)) sid (release_lockers_of sid (locker d))"
    "next_student_id d' = next_student_id d"
    "locker_check sid (id_or_null (locker_id req)) (locker d) = None"
    by blast
  let ?R = "\<lambda>l. l_student_id l = Some sid"
  show "locker_inv d'"
  proof (rule rebind_inv [where R = ?R and f = f and sid = sid, OF inv e(2) e(3) e(4) e(7) _ _ e(1) _ e(6)])
    show "?R l" if "l \<in> set (locker d)" "s \<in> set (students d)" "s_id s = sid"
      "s_locker_id s = Some (l_id l)" for l s
      using D(4)[OF that(1) that(2) that(4)] that(3) by simp
    show "l_student_id l = Some sid" if "?R l" for l
      using that .
    show "locker d' = assign_locker (id_or_null (locker_id req)) sid
            (map (\<lambda>l. if ?R l then l\<lparr>l_is_assigned := False, l_student_id := None\<rparr> else l) (locker d))"
      by (simp only: e(5) release_lockers_of_def)
  qed
qed

lemma set_status_preserves_locker_inv:
  assumes inv: "locker_inv d"
  shows "locker_inv (snd (set_status fault sid is_active d))"
  unfolding set_status_def
proof (rule transaction_cases [OF inv])
  fix d' assume b: "set_status_body sid is_active d = Inr d'"
  then obtain flag where flag: "is_active = Bool flag"
    by (cases is_active) (simp_all add: set_status_body_def)
  show "locker_inv d'"
  proof (cases flag)
    case True
    with b flag have "d' = d\<lparr>students := map (\<lambda>r. if s_id r = sid then r\<lparr>s_is_active := True\<rparr> else r) (students d)\<rparr>"
      by (auto simp: set_status_body_def Let_def split: if_splits)
    then show ?thesis
      using student_update_inv [OF inv, of "\<lambda>r. r\<lparr>s_is_active := True\<rparr>" "\<lambda>r. s_id r = sid"]
      by simp
  next
    case False
    with b flag have "d' = d\<lparr>students :=
                        map (\<lambda>r. if s_id r = sid then r\<lparr>s_is_active := False, s_locker_id := None\<rparr> else r) (students d),
                      seat_assignments := delete_assignments sid (seat_assignments d),
                      locker := release_lockers_of sid (locker d)\<rparr>"
      by (auto simp: set_status_body_def Let_def comp_def if_distrib cong: if_cong split: if_splits)
    then show ?thesis
      using deactivate_inv [OF inv] by simp
  qed
qed

lemma delete_preserves_locker_inv:
  assumes inv: "locker_inv d"
  shows "locker_inv (snd (delete_student None sid d))"
  by (rule delete_inv [OF inv, of _ sid]) (simp_all add: delete_student_def Let_def)

theorem lifecycle_preserves_locker_inv:
  assumes "locker_inv d"
  shows "locker_inv (snd (enroll fault now req d))"
    and "locker_inv (snd (edit fault now sid req d))"
    and "locker_inv (snd (renew fault now sid req d))"
    and "locker_inv (snd (set_status fault sid is_active d))"
    and "locker_inv (snd (delete_student None sid d))"
  using assms
  by (rule enroll_preserves_locker_inv edit_preserves_locker_inv renew_preserves_locker_inv
        set_status_preserves_locker_inv delete_preserves_locker_inv)+

corollary lifecycle_keeps_locker_flag:
  assumes "locker_inv d"
  shows "locker_flag_inv (snd (enroll fault now req d))"
    and "locker_flag_inv (snd (edit fault now sid req d))"
    and "locker_flag_inv (snd (renew fault now sid req d))"
    and "locker_flag_inv (snd (set_status fault sid is_active d))"
    and "locker_flag_inv (snd (delete_student None sid d))"
  using lifecycle_preserves_locker_inv [OF assms] by (simp_all add: locker_inv_flag)


subsection \<open>The sibling paths\<close>

text \<open>
  The parts of the claims above that the code does deliver. Enroll refuses an invalid
  fee, discount, cash or online amount with the database untouched. Renew refuses a
  seat that somebody else holds in a requested shift. Renew stores
  \<open>amount_paid = cash + online\<close> and the due amount computed from it. Delete of a
  member that does not exist, and that no row refers to, answers \<open>NotFound\<close> and
  changes nothing.
\<close>

lemma enroll_validates_amounts:
  assumes "invalid_amount (parseFloat_or0 (total_fee req)) \<or> invalid_amount (parseFloat_or0 (discount req))
         \<or> invalid_amount (parseFloat_defined (cash req)) \<or> invalid_amount (parseFloat_defined (online req))"
  shows "enroll False now req d = (Failure ValidationError, d)"
  using assms
  by (auto simp: enroll_def transaction_def enroll_body_def invalid_amount_def Let_def)

lemma renew_refuses_held_seat:
  assumes "seat_id req = Some seat" "seat \<noteq> 0" "shift \<in> set (shift_ids req)"
    and "seat_taken_by_other (Some seat) shift sid (seat_assignments d)"
  shows "renew False now sid req d = (Failure Conflict, d)
       \<or> renew False now sid req d = (Failure ValidationError, d)"
  using assms
  by (auto simp: renew_def transaction_def renew_body_def Let_def id_or_null_def truthy_def
        list_ex_iff)

lemma renew_due_from_channels:
  assumes "renew fault now sid req d = (Success, d')"
  shows "\<exists>st fee disc c onl.
             find (\<lambda>r. s_id r = sid) (students d') = Some st
           \<and> s_total_fee st = Some fee \<and> s_discount st = Some disc
           \<and> s_cash st = Some c \<and> s_online st = Some onl
           \<and> s_amount_paid st = Some (js_add c onl)
           \<and> s_due_amount st = Some (js_sub (js_sub fee disc) (js_add c onl))"
proof -
  from assms have "renew_body now sid req d = Inr d'"
    by (simp add: renew_def transaction_success)
  then show ?thesis
    unfolding renew_body_def
    by (auto simp: Let_def find_map_keep split: if_splits option.splits)
qed

lemma delete_unreferenced_missing_member:
  assumes "\<forall>r \<in> set (students d). s_id r \<noteq> sid"
    and "\<forall>a \<in> set (seat_assignments d). a_student_id a \<noteq> sid"
    and "\<forall>l \<in> set (locker d). l_student_id l \<noteq> Some sid"
    and "\<forall>r \<in> set (student_membership_history d). h_student_id r \<noteq> sid"
  shows "delete_student None sid d = (Failure NotFound, d)"
proof -
  have a: "delete_assignments sid (seat_assignments d) = seat_assignments d"
    using assms(2) by (simp add: delete_assignments_def)
  have l: "release_lockers_of sid (locker d) = locker d"
    using assms(3) unfolding release_lockers_of_def by (intro map_idI) simp
  have h: "filter (\<lambda>r. h_student_id r \<noteq> sid) (student_membership_history d) = student_membership_history d"
    using assms(4) by simp
  have s1: "filter (\<lambda>r. s_id r = sid) (students d) = []"
    using assms(1) by (simp add: filter_empty_conv)
  have s2: "filter (\<lambda>r. s_id r \<noteq> sid) (students d) = students d"
    using assms(1) by simp
  show ?thesis
    by (simp add: delete_student_def Let_def a l h s1 s2)
qed


end
